theory Spec2Isabelle
  imports Main "HOL-Library.Sublist" "HOL-Library.Multiset"
begin

section \<open>DocuBot: the ingestion and retrieval pipeline of the notebook\<close>

text \<open>
  The notebook \<^verbatim>\<open>notebooks/DocuBot.ipynb\<close> splits a text into chunks, embeds every chunk,
  stores the pairs in a PostgreSQL table through a pooled connection, and answers queries
  in a loop that retrieves the nearest chunks and calls a chat model twice per turn.

  The notebook's own functions are embedded below under their own names. What they call
  outside the notebook (the sentence splitter, the embedding model, the chat model, the
  connection pool and the database server) is not code of the notebook: every such call
  takes its outcome from a record \<open>world\<close>, which is universally quantified in the theorems.
  An exception is a value \<open>Inl e\<close>; the notebook's globals, the committed contents of the
  database and a trace of the observable calls are threaded through as a \<open>state\<close>.

  Strings are byte sequences in UTF-8.
\<close>

subsection \<open>Exceptions, trace events\<close>

text \<open>A Python exception: the name of its class and the text \<^verbatim>\<open>str(e)\<close>.\<close>

datatype exn = Exn (exn_class: string) (exn_text: string)

text \<open>
  Reading a local variable that was never assigned, as \<^verbatim>\<open>putconn(connection)\<close> does in a
  \<^verbatim>\<open>finally\<close> block when \<^verbatim>\<open>getconn()\<close> itself raised (Python 3.11 wording).
\<close>

definition unbound_local :: "string \<Rightarrow> exn" where
  "unbound_local v =
     Exn ''UnboundLocalError''
       (''cannot access local variable '' @ [CHR 0x27] @ v @ [CHR 0x27]
          @ '' where it is not associated with a value'')"

datatype event =
    LogInfo string
  | LogError string
  | EmbedCall string
  | Getconn nat
  | Putconn nat
  | Commit nat
  | Rollback nat
  | Send string
  | Print string

subsection \<open>Strings\<close>

definition nl :: string where
  "nl = [CHR 0x0A]"

text \<open>\<^verbatim>\<open>sep.join(xs)\<close>\<close>

fun str_join :: "string \<Rightarrow> string list \<Rightarrow> string" where
  "str_join sep [] = []"
| "str_join sep [x] = x"
| "str_join sep (x # y # ys) = x @ sep @ str_join sep (y # ys)"

text \<open>\<^verbatim>\<open>str(n)\<close> of a natural number, as an f-string prints it.\<close>

fun str_of_nat :: "nat \<Rightarrow> string" where
  "str_of_nat n =
     (if n < 10 then [''0123456789'' ! n]
      else str_of_nat (n div 10) @ [''0123456789'' ! (n mod 10)])"

declare str_of_nat.simps [simp del]

text \<open>
  \<^verbatim>\<open>str.strip()\<close> removes from both ends every character for which \<^verbatim>\<open>str.isspace\<close>
  holds. These are the code points U+0009..U+000D, U+001C..U+0020, U+0085, U+00A0, U+1680,
  U+2000..U+200A, U+2028, U+2029, U+202F, U+205F and U+3000, listed here in UTF-8.
\<close>

definition py_whitespace :: "string list" where
  "py_whitespace =
     map (\<lambda>c. [c])
       [CHR 0x09, CHR 0x0A, CHR 0x0B, CHR 0x0C, CHR 0x0D,
        CHR 0x1C, CHR 0x1D, CHR 0x1E, CHR 0x1F, CHR 0x20]
     @ [[CHR 0xC2, CHR 0x85], [CHR 0xC2, CHR 0xA0], [CHR 0xE1, CHR 0x9A, CHR 0x80]]
     @ map (\<lambda>c. [CHR 0xE2, CHR 0x80, c])
       [CHR 0x80, CHR 0x81, CHR 0x82, CHR 0x83, CHR 0x84, CHR 0x85, CHR 0x86, CHR 0x87,
        CHR 0x88, CHR 0x89, CHR 0x8A, CHR 0xA8, CHR 0xA9, CHR 0xAF]
     @ [[CHR 0xE2, CHR 0x81, CHR 0x9F], [CHR 0xE3, CHR 0x80, CHR 0x80]]"

function strip_left :: "string list \<Rightarrow> string \<Rightarrow> string" where
  "strip_left ws s =
     (case List.find (\<lambda>p. p \<noteq> [] \<and> prefix p s) ws of
        None \<Rightarrow> s
      | Some p \<Rightarrow> strip_left ws (drop (length p) s))"
  by pat_completeness auto
termination
proof (relation "measure (\<lambda>(ws, s). length s)")
  show "wf (measure (\<lambda>(ws, s). length s))"
    by simp
next
  fix ws :: "string list" and s p :: string
  assume "List.find (\<lambda>p. p \<noteq> [] \<and> prefix p s) ws = Some p"
  then have "p \<noteq> [] \<and> prefix p s"
    by (auto simp: find_Some_iff)
  then have "s \<noteq> [] \<and> 0 < length p"
    by auto
  then have "length (drop (length p) s) < length s"
    by simp
  then show "((ws, drop (length p) s), (ws, s)) \<in> measure (\<lambda>(ws, s). length s)"
    by simp
qed

declare strip_left.simps [simp del]

definition strip :: "string \<Rightarrow> string" where
  "strip s = rev (strip_left (map rev py_whitespace) (rev (strip_left py_whitespace s)))"

subsection \<open>The database: tables, statements, what the server does with them\<close>

text \<open>
  A table has its column definitions and its rows in insertion order. The \<^verbatim>\<open>id\<close> column
  is filled by the server's sequence and is never read by the notebook, which selects
  \<^verbatim>\<open>text_chunk\<close> only: a row is kept as the pair of its \<^verbatim>\<open>text_chunk\<close> and
  \<^verbatim>\<open>embedding\<close>, and its position in the list is its insertion order.
\<close>

record 'v table =
  columns :: "(string \<times> string) list"
  rows :: "(string \<times> 'v) list"

record 'v database =
  extensions :: "string list"
  tables :: "string \<Rightarrow> 'v table option"

text \<open>The SQL statements the notebook sends, by their shape.\<close>

datatype 'v stmt =
    CreateExtensionIfNotExists string
  | DropTableIfExists string
  | CreateTableIfNotExists string "(string \<times> string) list"
  | InsertValues string "string list" "(string \<times> 'v) list"
  | SelectOrderByDistanceLimit string 'v nat

definition undefined_table :: "string \<Rightarrow> exn" where
  "undefined_table t =
     Exn ''UndefinedTable'' (''relation '' @ [CHR 0x22] @ t @ [CHR 0x22] @ '' does not exist'')"

fun exec_stmt :: "'v database \<Rightarrow> 'v stmt \<Rightarrow> exn + 'v database" where
  "exec_stmt d (CreateExtensionIfNotExists x) =
     Inr (d\<lparr>extensions := List.insert x (extensions d)\<rparr>)"
| "exec_stmt d (DropTableIfExists t) =
     Inr (d\<lparr>tables := (tables d)(t := None)\<rparr>)"
| "exec_stmt d (CreateTableIfNotExists t cols) =
     (case tables d t of
        None \<Rightarrow> Inr (d\<lparr>tables := (tables d)(t \<mapsto> \<lparr>columns = cols, rows = []\<rparr>)\<rparr>)
      | Some tb \<Rightarrow> Inr d)"
| "exec_stmt d (InsertValues t cols vals) =
     (case tables d t of
        None \<Rightarrow> Inl (undefined_table t)
      | Some tb \<Rightarrow> Inr (d\<lparr>tables := (tables d)(t \<mapsto> tb\<lparr>rows := rows tb @ vals\<rparr>)\<rparr>))"
| "exec_stmt d (SelectOrderByDistanceLimit t q k) =
     (case tables d t of
        None \<Rightarrow> Inl (undefined_table t)
      | Some tb \<Rightarrow> Inr d)"

subsection \<open>The outside world of one operation\<close>

text \<open>The arguments \<^verbatim>\<open>SentenceSplitter\<close> is constructed with.\<close>

record splitter_config =
  separator :: string
  chunk_size :: nat
  chunk_overlap :: nat
  paragraph_separator :: string
  secondary_chunking_regex :: string
  tokenizer :: string

text \<open>
  The outcomes of the calls that leave the notebook during one operation (one call of
  \<^verbatim>\<open>_create_table\<close>, \<^verbatim>\<open>ingest\<close> or \<^verbatim>\<open>retrieve\<close>, or one turn of the conversation):
  \<^item> \<open>sentence_splitter\<close>: the splitter built from a configuration, applied to the texts of
    a list of documents, gives the texts of the nodes or raises;
  \<^item> \<open>get_embeddings\<close>: the \<open>i\<close>-th request of the operation to the embedding model, for one
    text, gives the list of embeddings of the response or raises;
  \<^item> \<open>getconn_result\<close>: \<^verbatim>\<open>conn_pool.getconn()\<close> hands out a connection or raises;
  \<^item> \<open>register_error\<close>, \<open>cursor_error\<close>, \<open>commit_error\<close>: whether \<^verbatim>\<open>register_vector\<close>,
    \<^verbatim>\<open>connection.cursor()\<close> and the commit at the end of \<^verbatim>\<open>with connection\<close> raise;
  \<^item> \<open>rollback_error\<close>: whether the rollback that \<^verbatim>\<open>with connection\<close> runs when its body
    raised raises itself (on a connection that was lost, \<^verbatim>\<open>InterfaceError\<close> with the text
    \<^verbatim>\<open>connection already closed\<close>);
  \<^item> \<open>server_error\<close>: whether the server refuses the \<open>i\<close>-th statement it is sent (a lost
    connection, a vector of the wrong width, ...);
  \<^item> \<open>distance\<close>: the operator \<^verbatim>\<open><->\<close> between a stored and a query vector. Embeddings are
    lists of floating point numbers; the type \<open>'v\<close> of vectors and the linearly ordered type
    \<open>'d\<close> of distances are left open;
  \<^item> \<open>row_order\<close>: the order in which the executor delivers the rows of a table to the
    sort. SQL leaves the order of rows with equal sort keys to the implementation, and the
    query names no second key;
  \<^item> \<open>refresh_reply\<close>, \<open>answer_reply\<close>: the responses of the chat model to the first and
    to the second message of a turn.
\<close>

record ('v, 'd) world =
  sentence_splitter :: "splitter_config \<Rightarrow> string list \<Rightarrow> exn + string list"
  get_embeddings :: "nat \<Rightarrow> string \<Rightarrow> exn + 'v list"
  getconn_result :: "exn + nat"
  register_error :: "exn option"
  cursor_error :: "exn option"
  commit_error :: "exn option"
  rollback_error :: "exn option"
  server_error :: "nat \<Rightarrow> 'v stmt \<Rightarrow> exn option"
  distance :: "'v \<Rightarrow> 'v \<Rightarrow> 'd"
  row_order :: "(string \<times> 'v) list \<Rightarrow> (string \<times> 'v) list"
  refresh_reply :: "exn + string"
  answer_reply :: "exn + string"

subsection \<open>The state\<close>

text \<open>
  \<open>db\<close> is the committed content of the database, \<open>borrowed\<close> the connections handed out
  by the pool and not yet put back, \<open>trace\<close> the observable calls so far (log lines,
  requests to the embedding and chat models, pool and transaction calls, printed lines),
  \<open>chat_history\<close> the notebook's global list of that name.
\<close>

record 'v state =
  db :: "'v database"
  borrowed :: "nat list"
  trace :: "event list"
  chat_history :: "string list"

definition emit :: "event \<Rightarrow> 'v state \<Rightarrow> 'v state" where
  "emit ev s = s\<lparr>trace := trace s @ [ev]\<rparr>"

definition logger_info :: "string \<Rightarrow> 'v state \<Rightarrow> 'v state" where
  "logger_info msg s = emit (LogInfo msg) s"

definition logger_error :: "string \<Rightarrow> 'v state \<Rightarrow> 'v state" where
  "logger_error msg s = emit (LogError msg) s"

definition getconn :: "nat \<Rightarrow> 'v state \<Rightarrow> 'v state" where
  "getconn c s = emit (Getconn c) (s\<lparr>borrowed := c # borrowed s\<rparr>)"

definition putconn :: "nat \<Rightarrow> 'v state \<Rightarrow> 'v state" where
  "putconn c s = emit (Putconn c) (s\<lparr>borrowed := remove1 c (borrowed s)\<rparr>)"

subsection \<open>Segmentation and embedding (notebook sections 1.1 to 1.3)\<close>

definition ideographic_full_stop :: string where
  "ideographic_full_stop = [CHR 0xE3, CHR 0x80, CHR 0x82]"

definition splitter_args :: splitter_config where
  "splitter_args =
     \<lparr>separator = '' '',
      chunk_size = 300,
      chunk_overlap = 20,
      paragraph_separator = nl @ nl,
      secondary_chunking_regex =
        ''[^,.;'' @ ideographic_full_stop @ '']+[,.;'' @ ideographic_full_stop @ '']?'',
      tokenizer = ''gpt-3.5-turbo''\<rparr>"

text \<open>
  \<^verbatim>\<open>split_input_to_chunks\<close> builds a new splitter with constant arguments at every call,
  wraps the input in one document and returns the text of every node.
\<close>

definition split_input_to_chunks :: "('v, 'd) world \<Rightarrow> string \<Rightarrow> exn + string list" where
  "split_input_to_chunks w input_text =
     (case sentence_splitter w splitter_args [input_text] of
        Inl e \<Rightarrow> Inl e
      | Inr chunks \<Rightarrow> Inr (map (\<lambda>chunk. chunk) chunks))"

text \<open>
  \<^verbatim>\<open>text_embedding\<close> asks for the embeddings of the one-element list \<^verbatim>\<open>[text]\<close> and
  returns the values of the last embedding of the response; its loop variable stays
  unassigned when the response is empty.
\<close>

definition text_embedding ::
  "('v, 'd) world \<Rightarrow> nat \<Rightarrow> string \<Rightarrow> 'v state \<Rightarrow> (exn + 'v) \<times> 'v state" where
  "text_embedding w i txt s =
     (let s1 = emit (EmbedCall txt) s in
      case get_embeddings w i txt of
        Inl e \<Rightarrow> (Inl e, s1)
      | Inr embeddings \<Rightarrow>
          (if embeddings = [] then (Inl (unbound_local ''vector''), s1)
           else (Inr (last embeddings), s1)))"

record 'v TextEmbedding =
  te_text :: string
  te_embedding :: 'v

text \<open>The loop of \<^verbatim>\<open>get_text_embedding_pairs\<close>: one request per chunk, in order.\<close>

fun embed_chunks ::
  "('v, 'd) world \<Rightarrow> nat \<Rightarrow> string list \<Rightarrow> 'v TextEmbedding list \<Rightarrow> 'v state
     \<Rightarrow> (exn + 'v TextEmbedding list) \<times> 'v state" where
  "embed_chunks w i [] chunk_embedding_pairs s = (Inr chunk_embedding_pairs, s)"
| "embed_chunks w i (curr_chunk # chunks) chunk_embedding_pairs s =
     (case text_embedding w i curr_chunk s of
        (Inl e, s1) \<Rightarrow> (Inl e, s1)
      | (Inr curr_embedding, s1) \<Rightarrow>
          embed_chunks w (Suc i) chunks
            (chunk_embedding_pairs
               @ [\<lparr>te_text = curr_chunk, te_embedding = curr_embedding\<rparr>]) s1)"

definition get_text_embedding_pairs ::
  "('v, 'd) world \<Rightarrow> string \<Rightarrow> 'v state \<Rightarrow> (exn + 'v TextEmbedding list) \<times> 'v state" where
  "get_text_embedding_pairs w txt s =
     (case split_input_to_chunks w txt of
        Inl e \<Rightarrow> (Inl e, s)
      | Inr chunks \<Rightarrow>
          embed_chunks w 0 chunks []
            (logger_info (''Number of chunks generated: '' @ str_of_nat (length chunks)) s))"

subsection \<open>Cursors and transactions\<close>

text \<open>
  The server runs the statements it is sent one after the other on the transaction's
  working copy of the database; the first refusal ends the run.
\<close>

fun exec_script ::
  "('v, 'd) world \<Rightarrow> nat \<Rightarrow> 'v stmt list \<Rightarrow> 'v database \<Rightarrow> exn + 'v database" where
  "exec_script w i [] d = Inr d"
| "exec_script w i (st # sts) d =
     (case server_error w i st of
        Some e \<Rightarrow> Inl e
      | None \<Rightarrow>
          (case exec_stmt d st of
             Inl e \<Rightarrow> Inl e
           | Inr d' \<Rightarrow> exec_script w (Suc i) sts d'))"

text \<open>\<^verbatim>\<open>cursor.execute\<close>: inside a transaction \<open>db\<close> is the working copy.\<close>

definition cursor_execute ::
  "('v, 'd) world \<Rightarrow> 'v stmt list \<Rightarrow> 'v state \<Rightarrow> (exn + unit) \<times> 'v state" where
  "cursor_execute w script s =
     (case exec_script w 0 script (db s) of
        Inl e \<Rightarrow> (Inl e, s)
      | Inr d \<Rightarrow> (Inr (), s\<lparr>db := d\<rparr>))"

text \<open>
  \<^verbatim>\<open>psycopg2.extras.execute_values\<close> sends the rows in pages of \<^verbatim>\<open>page_size\<close> rows
  (100 when the caller gives none, as here), one \<^verbatim>\<open>INSERT\<close> statement per page.
\<close>

fun paginate :: "nat \<Rightarrow> 'a list \<Rightarrow> 'a list list" where
  "paginate page_size xs =
     (if xs = [] \<or> page_size = 0 then []
      else take page_size xs # paginate page_size (drop page_size xs))"

declare paginate.simps [simp del]

definition execute_values ::
  "('v, 'd) world \<Rightarrow> string \<Rightarrow> string list \<Rightarrow> (string \<times> 'v) list \<Rightarrow> 'v state
     \<Rightarrow> (exn + unit) \<times> 'v state" where
  "execute_values w t cols argslist s =
     cursor_execute w (map (InsertValues t cols) (paginate 100 argslist)) s"

text \<open>\<^verbatim>\<open>with connection.cursor() as cursor:\<close>\<close>

definition with_cursor ::
  "('v, 'd) world \<Rightarrow> ('v state \<Rightarrow> (exn + 'a) \<times> 'v state) \<Rightarrow> 'v state
     \<Rightarrow> (exn + 'a) \<times> 'v state" where
  "with_cursor w body s =
     (case cursor_error w of
        Some e \<Rightarrow> (Inl e, s)
      | None \<Rightarrow> body s)"

text \<open>
  \<^verbatim>\<open>with connection:\<close> runs its body in one transaction: on exit it commits when the
  body returned and rolls back when the body raised, and the exception of the body
  propagates after the rollback. When the rollback raises itself, its exception leaves the
  block in place of the body's. A rollback, a rollback that fails (the server ends the
  transaction of a connection it lost) and a commit that fails leave the committed
  database as it was before the block.
\<close>

definition with_connection ::
  "('v, 'd) world \<Rightarrow> nat \<Rightarrow> ('v state \<Rightarrow> (exn + 'a) \<times> 'v state) \<Rightarrow> 'v state
     \<Rightarrow> (exn + 'a) \<times> 'v state" where
  "with_connection w c body s =
     (case body s of
        (Inl e, s') \<Rightarrow>
          (case rollback_error w of
             Some e' \<Rightarrow> (Inl e', s'\<lparr>db := db s\<rparr>)
           | None \<Rightarrow> (Inl e, emit (Rollback c) (s'\<lparr>db := db s\<rparr>)))
      | (Inr r, s') \<Rightarrow>
          (case commit_error w of
             Some e \<Rightarrow> (Inl e, s'\<lparr>db := db s\<rparr>)
           | None \<Rightarrow> (Inr r, emit (Commit c) s')))"

subsection \<open>The class DataStore (notebook section 2)\<close>

definition DATABASE_SCHEMA :: "(string \<times> string) list" where
  "DATABASE_SCHEMA = [(''text_chunk'', ''varchar''), (''embedding'', ''vector(768)'')]"

definition TABLE_NAME :: string where
  "TABLE_NAME = ''my_table''"

text \<open>
  \<^verbatim>\<open>_get_connection_pool\<close> asks for a \<^verbatim>\<open>SimpleConnectionPool\<close> with these bounds. How
  the pool answers \<^verbatim>\<open>getconn\<close> is \<open>getconn_result\<close>; \<^verbatim>\<open>putconn\<close> of a connection the pool
  handed out takes it back. The methods call \<^verbatim>\<open>getconn()\<close> once, with no argument, and
  the notebook has no loop or wait around the call.
\<close>

definition pool_minconn :: nat where
  "pool_minconn = 1"

definition pool_maxconn :: nat where
  "pool_maxconn = 10"

text \<open>
  A \<^verbatim>\<open>SimpleConnectionPool\<close> does not wait for a connection: with \<^verbatim>\<open>maxconn\<close>
  connections handed out, \<^verbatim>\<open>getconn\<close> raises \<^verbatim>\<open>PoolError\<close> at once. A world answers
  as this pool does in state \<open>s\<close> when it refuses the acquisition beyond the bound.
\<close>

definition pool_exhausted :: exn where
  "pool_exhausted = Exn ''PoolError'' ''connection pool exhausted''"

definition answers_as_pool :: "('v, 'd) world \<Rightarrow> 'v state \<Rightarrow> bool" where
  "answers_as_pool w s =
     (pool_maxconn \<le> length (borrowed s) \<longrightarrow> getconn_result w = Inl pool_exhausted)"

text \<open>The text of the table creation query, as the f-string builds it, and its statements.\<close>

definition indent :: string where
  "indent = replicate 12 (CHR '' '')"

definition table_creation_query :: string where
  "table_creation_query =
     (let col_defs = map (\<lambda>(col_name, col_type). col_name @ '' '' @ col_type) DATABASE_SCHEMA;
          cols = str_join '', '' col_defs
      in nl @ indent @ ''CREATE EXTENSION IF NOT EXISTS vector;''
         @ nl @ indent @ ''DROP TABLE IF EXISTS '' @ TABLE_NAME @ '';''
         @ nl @ indent @ ''CREATE TABLE IF NOT EXISTS '' @ TABLE_NAME @ '' (''
         @ nl @ indent @ ''id SERIAL PRIMARY KEY,''
         @ nl @ indent @ cols
         @ nl @ indent @ '');''
         @ nl @ indent)"

definition table_creation_script :: "'v stmt list" where
  "table_creation_script =
     [CreateExtensionIfNotExists ''vector'',
      DropTableIfExists TABLE_NAME,
      CreateTableIfNotExists TABLE_NAME ((''id'', ''SERIAL PRIMARY KEY'') # DATABASE_SCHEMA)]"

text \<open>
  \<^verbatim>\<open>_create_table\<close>. In each of the three methods the \<^verbatim>\<open>try\<close> block starts with
  \<^verbatim>\<open>connection = self.conn_pool.getconn()\<close>; the \<^verbatim>\<open>except\<close> clause logs and re-raises
  with a bare \<^verbatim>\<open>raise\<close>; the \<^verbatim>\<open>finally\<close> clause calls \<^verbatim>\<open>putconn(connection)\<close>, which
  reads an unassigned local when \<^verbatim>\<open>getconn\<close> raised.
\<close>

definition create_table :: "('v, 'd) world \<Rightarrow> 'v state \<Rightarrow> (exn + unit) \<times> 'v state" where
  "create_table w s =
     (let s0 = logger_info table_creation_query s in
      case getconn_result w of
        Inl e \<Rightarrow>
          (Inl (unbound_local ''connection''),
           logger_error (''Error in create table query: '' @ exn_text e) s0)
      | Inr connection \<Rightarrow>
          (case with_connection w connection
                  (with_cursor w (cursor_execute w table_creation_script))
                  (getconn connection s0) of
             (Inl e, s1) \<Rightarrow>
               (Inl e,
                putconn connection
                  (logger_error (''Error in create table query: '' @ exn_text e) s1))
           | (Inr r, s1) \<Rightarrow> (Inr r, putconn connection s1)))"

text \<open>
  \<^verbatim>\<open>ingest\<close>: the pairs are computed first; the insert and its log line are the body of
  the cursor block.
\<close>

definition ingest ::
  "('v, 'd) world \<Rightarrow> string \<Rightarrow> 'v state \<Rightarrow> (exn + unit) \<times> 'v state" where
  "ingest w txt s =
     (case get_text_embedding_pairs w txt s of
        (Inl e, s0) \<Rightarrow> (Inl e, s0)
      | (Inr text_embedding_pairs, s0) \<Rightarrow>
          (let data_list = map (\<lambda>curr. (te_text curr, te_embedding curr)) text_embedding_pairs;
               col_names = map fst DATABASE_SCHEMA
           in case getconn_result w of
                Inl e \<Rightarrow>
                  (Inl (unbound_local ''connection''),
                   logger_error (''Error in update table query : '' @ exn_text e) s0)
              | Inr connection \<Rightarrow>
                  (case with_connection w connection
                          (with_cursor w
                             (\<lambda>sc. case execute_values w TABLE_NAME col_names data_list sc of
                                     (Inl e, sc') \<Rightarrow> (Inl e, sc')
                                   | (Inr u, sc') \<Rightarrow>
                                       (Inr u,
                                        logger_info ''Updated table with embedding pairs'' sc')))
                          (getconn connection s0) of
                     (Inl e, s1) \<Rightarrow>
                       (Inl e,
                        putconn connection
                          (logger_error (''Error in update table query : '' @ exn_text e) s1))
                   | (Inr r, s1) \<Rightarrow> (Inr r, putconn connection s1))))"

text \<open>
  The rows \<^verbatim>\<open>cursor.fetchall()\<close> gives for
  \<^verbatim>\<open>SELECT text_chunk FROM t ORDER BY embedding <-> q LIMIT k\<close>: the rows as the executor
  delivers them, sorted by their distance to \<open>q\<close>, the first \<open>k\<close> of them, each as the
  one-column tuple of its \<^verbatim>\<open>text_chunk\<close>. (It is called after the statement was executed;
  the server has refused the statement by then when the table does not exist.)
\<close>

definition fetchall ::
  "('v, 'd::linorder) world \<Rightarrow> 'v database \<Rightarrow> string \<Rightarrow> 'v \<Rightarrow> nat \<Rightarrow> string list list" where
  "fetchall w d t q k =
     (case tables d t of
        None \<Rightarrow> []
      | Some tb \<Rightarrow>
          map (\<lambda>row. [fst row])
            (take k (sort_key (\<lambda>row. distance w (snd row) q) (row_order w (rows tb)))))"

text \<open>\<^verbatim>\<open>retrieve\<close>: the query is embedded first; \<^verbatim>\<open>LIMIT 5\<close> is part of the query text.\<close>

definition retrieve ::
  "('v, 'd::linorder) world \<Rightarrow> string \<Rightarrow> 'v state \<Rightarrow> (exn + string list) \<times> 'v state" where
  "retrieve w query s =
     (case text_embedding w 0 query s of
        (Inl e, s0) \<Rightarrow> (Inl e, s0)
      | (Inr query_embedding, s0) \<Rightarrow>
          (case getconn_result w of
             Inl e \<Rightarrow>
               (Inl (unbound_local ''connection''),
                logger_error (''Error in retrieval query : '' @ exn_text e) s0)
           | Inr connection \<Rightarrow>
               (case (case register_error w of
                        Some e \<Rightarrow> (Inl e, getconn connection s0)
                      | None \<Rightarrow>
                          with_connection w connection
                            (with_cursor w
                               (\<lambda>sc. case cursor_execute w
                                            [SelectOrderByDistanceLimit TABLE_NAME
                                               query_embedding 5] sc of
                                       (Inl e, sc') \<Rightarrow> (Inl e, sc')
                                     | (Inr u, sc') \<Rightarrow>
                                         (Inr (concat (fetchall w (db sc') TABLE_NAME
                                                         query_embedding 5)), sc')))
                            (getconn connection s0)) of
                  (Inl e, s1) \<Rightarrow>
                    (Inl e,
                     putconn connection
                       (logger_error (''Error in retrieval query : '' @ exn_text e) s1))
                | (Inr retrieved_chunk, s1) \<Rightarrow>
                    (Inr retrieved_chunk, putconn connection s1))))"

subsection \<open>The conversation loop (notebook section 4.3)\<close>

definition prompt_template :: "string \<Rightarrow> string \<Rightarrow> string" where
  "prompt_template query context =
     ''Refer to the following context to answer this query: '' @ query
       @ nl @ nl @ ''Context: '' @ context"

datatype step = Continue | Break | Raised exn

text \<open>
  The body of \<^verbatim>\<open>while True:\<close> for one line of input. There is no \<^verbatim>\<open>try\<close> in the loop:
  an exception of a call leaves the body where it was raised.
\<close>

definition conversation_turn ::
  "('v, 'd::linorder) world \<Rightarrow> string \<Rightarrow> 'v state \<Rightarrow> step \<times> 'v state" where
  "conversation_turn w query s =
     (if query = ''quit'' then (Break, s)
      else
        (let model_input_1 = prompt_template [] (str_join nl (chat_history s));
             s1 = emit (Send model_input_1) s
         in case refresh_reply w of
              Inl e \<Rightarrow> (Raised e, s1)
            | Inr response_1 \<Rightarrow>
                (let updated_context = strip response_1 in
                 case retrieve w query s1 of
                   (Inl e, s2) \<Rightarrow> (Raised e, s2)
                 | (Inr similar_chunks, s2) \<Rightarrow>
                     (let updated_context = updated_context @ str_join nl similar_chunks;
                          model_input_2 = prompt_template query updated_context;
                          s3 = emit (Send model_input_2) s2
                      in case answer_reply w of
                           Inl e \<Rightarrow> (Raised e, s3)
                         | Inr response_2 \<Rightarrow>
                             (let s4 = emit (Print (''Model : '' @ strip response_2 @ nl @ nl)) s3
                              in (Continue, s4\<lparr>chat_history := chat_history s4 @ [query]\<rparr>))))))"

datatype outcome = Finished | Crashed exn | AwaitingInput

text \<open>
  The loop over the lines the user types, each with the world of its turn. An exception
  that leaves the body leaves the loop; when the lines run out the loop waits in
  \<^verbatim>\<open>input\<close>.
\<close>

fun conversation ::
  "(('v, 'd::linorder) world \<times> string) list \<Rightarrow> 'v state \<Rightarrow> outcome \<times> 'v state" where
  "conversation [] s = (AwaitingInput, s)"
| "conversation ((w, query) # rest) s =
     (case conversation_turn w query s of
        (Break, s') \<Rightarrow> (Finished, s')
      | (Raised e, s') \<Rightarrow> (Crashed e, s')
      | (Continue, s') \<Rightarrow> conversation rest s')"

section \<open>Observations on states and traces\<close>

text \<open>The events an operation adds to the trace of the state it starts in.\<close>

definition new_events :: "'v state \<Rightarrow> 'v state \<Rightarrow> event list" where
  "new_events s s' = drop (length (trace s)) (trace s')"

text \<open>The calls to the connection pool.\<close>

fun is_pool_call :: "event \<Rightarrow> bool" where
  "is_pool_call (Getconn c) = True"
| "is_pool_call (Putconn c) = True"
| "is_pool_call ev = False"

text \<open>
  The events that happen inside a block: log lines at level info and the end of a
  transaction.
\<close>

fun quiet :: "event \<Rightarrow> bool" where
  "quiet (LogInfo m) = True"
| "quiet (Commit c) = True"
| "quiet (Rollback c) = True"
| "quiet ev = False"

text \<open>The events of the embedding step: its log line and its requests to the model.\<close>

fun embedding_event :: "event \<Rightarrow> bool" where
  "embedding_event (LogInfo m) = True"
| "embedding_event (EmbedCall t) = True"
| "embedding_event ev = False"

fun is_embed_call :: "event \<Rightarrow> bool" where
  "is_embed_call (EmbedCall t) = True"
| "is_embed_call ev = False"

text \<open>The calls that touch the vector store: the pool and the transactions.\<close>

fun is_store_call :: "event \<Rightarrow> bool" where
  "is_store_call (Getconn c) = True"
| "is_store_call (Putconn c) = True"
| "is_store_call (Commit c) = True"
| "is_store_call (Rollback c) = True"
| "is_store_call ev = False"

text \<open>
  The exceptions the calls to the database can raise in a world: those of
  \<^verbatim>\<open>register_vector\<close>, of \<^verbatim>\<open>cursor()\<close>, of the commit, of the rollback, of a statement the
  server refuses, and the server's answer for a table that does not exist.
\<close>

definition database_errors :: "('v, 'd) world \<Rightarrow> exn set" where
  "database_errors w =
     {e. register_error w = Some e \<or> cursor_error w = Some e \<or> commit_error w = Some e
         \<or> rollback_error w = Some e
         \<or> (\<exists>i st. server_error w i st = Some e) \<or> (\<exists>t. e = undefined_table t)}"

text \<open>
  What a block that runs with a borrowed connection does to the state: it may replace the
  database and it adds quiet events; an exception it raises is one of the database's.
\<close>

definition block_effect :: "('v, 'd) world \<Rightarrow> 'v state \<Rightarrow> (exn + 'a) \<Rightarrow> 'v state \<Rightarrow> bool" where
  "block_effect w s r s' =
     ((\<exists>d evs. list_all quiet evs \<and> s' = s\<lparr>db := d, trace := trace s @ evs\<rparr>)
      \<and> (\<forall>e. r = Inl e \<longrightarrow> e \<in> database_errors w))"

text \<open>
  What the \<^verbatim>\<open>try\<close> statement of a method does to the state \<open>s\<close> it starts in, \<open>label\<close> being
  the start of its error message: when \<^verbatim>\<open>getconn\<close> raises, the error is logged and the
  \<^verbatim>\<open>finally\<close> clause raises in turn; otherwise the connection is borrowed, the block runs,
  an exception of the block is logged, and the connection is put back.
\<close>

definition store_op_effect ::
  "('v, 'd) world \<Rightarrow> string \<Rightarrow> 'v state \<Rightarrow> (exn + 'a) \<Rightarrow> 'v state \<Rightarrow> bool" where
  "store_op_effect w label s r s' =
     (case getconn_result w of
        Inl e0 \<Rightarrow>
          r = Inl (unbound_local ''connection'')
          \<and> s' = s\<lparr>trace := trace s @ [LogError (label @ exn_text e0)]\<rparr>
      | Inr c \<Rightarrow>
          (\<exists>d evs. list_all quiet evs \<and>
             (case r of
                Inl e \<Rightarrow>
                  e \<in> database_errors w \<and>
                  s' = s\<lparr>trace := trace s @ Getconn c # evs
                                 @ [LogError (label @ exn_text e), Putconn c]\<rparr>
              | Inr x \<Rightarrow>
                  s' = s\<lparr>db := d, trace := trace s @ Getconn c # evs @ [Putconn c]\<rparr>)))"

text \<open>
  The pool calls of an operation that reaches \<^verbatim>\<open>getconn\<close>: none that hands out or takes back
  a connection when \<^verbatim>\<open>getconn\<close> raises, else one borrow followed by one return of the same
  connection.
\<close>

definition pool_use :: "('v, 'd) world \<Rightarrow> event list" where
  "pool_use w = (case getconn_result w of Inl e \<Rightarrow> [] | Inr c \<Rightarrow> [Getconn c, Putconn c])"

text \<open>
  The exception, if any, of the body of a transaction that opens a cursor and sends the
  statements of \<open>script\<close> on database \<open>d\<close>: that of \<^verbatim>\<open>cursor()\<close>, else that of the first
  statement that fails.
\<close>

definition statement_error :: "('v, 'd) world \<Rightarrow> 'v stmt list \<Rightarrow> 'v database \<Rightarrow> exn option" where
  "statement_error w script d =
     (case cursor_error w of
        Some e \<Rightarrow> Some e
      | None \<Rightarrow> (case exec_script w 0 script d of Inl e \<Rightarrow> Some e | Inr d' \<Rightarrow> None))"

text \<open>
  The statements \<^verbatim>\<open>ingest\<close> sends for the pairs of a text, and the statement \<^verbatim>\<open>retrieve\<close>
  sends for the embedding of a query.
\<close>

definition ingest_script :: "'v TextEmbedding list \<Rightarrow> 'v stmt list" where
  "ingest_script pairs =
     map (InsertValues TABLE_NAME (map fst DATABASE_SCHEMA))
       (paginate 100 (map (\<lambda>curr. (te_text curr, te_embedding curr)) pairs))"

definition retrieval_script :: "'v \<Rightarrow> 'v stmt list" where
  "retrieval_script query_embedding = [SelectOrderByDistanceLimit TABLE_NAME query_embedding 5]"

text \<open>
  An operation that started in state \<open>s\<close> raised \<open>e\<close> to its caller, and the events it added
  to the trace end with the error log line, \<open>label\<close> followed by the text of \<open>e\<close>, and the
  return of connection \<open>c\<close>.
\<close>

definition raised_and_logged ::
  "(exn + 'a) \<times> 'v state \<Rightarrow> 'v state \<Rightarrow> string \<Rightarrow> nat \<Rightarrow> exn \<Rightarrow> bool" where
  "raised_and_logged out s label c e =
     (fst out = Inl e
      \<and> prefix (trace s) (trace (snd out))
      \<and> suffix [LogError (label @ exn_text e), Putconn c] (new_events s (snd out)))"

section \<open>Example worlds and states\<close>

text \<open>
  A world in which every call succeeds: the splitter returns each document as one chunk,
  the embedding of a text is its length, vectors are integers with the absolute difference
  as distance, the pool hands out connection 0. Then the same world with a server that
  refuses every statement, and a state with an empty database.
\<close>

definition calm_world :: "(int, int) world" where
  "calm_world =
     \<lparr>sentence_splitter = (\<lambda>cfg docs. Inr docs),
      get_embeddings = (\<lambda>i txt. Inr [int (length txt)]),
      getconn_result = Inr 0,
      register_error = None,
      cursor_error = None,
      commit_error = None,
      rollback_error = None,
      server_error = (\<lambda>i st. None),
      distance = (\<lambda>a b. \<bar>a - b\<bar>),
      row_order = (\<lambda>rs. rs),
      refresh_reply = Inr ''R'',
      answer_reply = Inr ''A''\<rparr>"

definition connection_lost :: exn where
  "connection_lost = Exn ''OperationalError'' ''server closed the connection unexpectedly''"

definition refusing_world :: "(int, int) world" where
  "refusing_world = calm_world\<lparr>server_error := (\<lambda>i st. Some connection_lost)\<rparr>"

definition fresh_state :: "int state" where
  "fresh_state =
     \<lparr>db = \<lparr>extensions = [], tables = (\<lambda>t. None)\<rparr>,
      borrowed = [], trace = [], chat_history = []\<rparr>"

text \<open>
  A world whose embedding model fails at the second request of an operation, with a
  splitter that returns three chunks.
\<close>

definition failing_embedding :: exn where
  "failing_embedding = Exn ''ServiceUnavailable'' ''503 The service is currently unavailable''"

definition flaky_embedding_world :: "(int, int) world" where
  "flaky_embedding_world =
     calm_world\<lparr>sentence_splitter := (\<lambda>cfg docs. Inr [''one'', ''two'', ''three'']),
                get_embeddings := (\<lambda>i t. if i = 1 then Inl failing_embedding
                                          else Inr [int (length t)])\<rparr>"


text \<open>
  A state whose database holds the notebook's table with one row.
\<close>

definition stocked_state :: "int state" where
  "stocked_state =
     \<lparr>db = \<lparr>extensions = [''vector''],
             tables = (\<lambda>t. None)(TABLE_NAME \<mapsto>
               \<lparr>columns = (''id'', ''SERIAL PRIMARY KEY'') # DATABASE_SCHEMA,
                rows = [(''old'', 1)]\<rparr>)\<rparr>,
      borrowed = [], trace = [], chat_history = []\<rparr>"

text \<open>
  A world in which nothing outside the notebook fails during \<^verbatim>\<open>_create_table\<close>: the pool
  hands out a connection, the cursor opens, the server accepts the three statements of the
  script and the commit.
\<close>

definition accepts_table_creation :: "('v, 'd) world \<Rightarrow> bool" where
  "accepts_table_creation w =
     ((case getconn_result w of Inl e \<Rightarrow> False | Inr c \<Rightarrow> True)
      \<and> cursor_error w = None
      \<and> server_error w 0 (CreateExtensionIfNotExists ''vector'') = None
      \<and> server_error w (Suc 0) (DropTableIfExists TABLE_NAME) = None
      \<and> server_error w (Suc (Suc 0))
           (CreateTableIfNotExists TABLE_NAME ((''id'', ''SERIAL PRIMARY KEY'') # DATABASE_SCHEMA))
          = None
      \<and> commit_error w = None)"

text \<open>
  The database after the table creation script: the extension is present and the table
  is new, with the \<^verbatim>\<open>id\<close> column before the columns of the schema.
\<close>

definition recreated :: "'v database \<Rightarrow> 'v database" where
  "recreated d =
     d\<lparr>extensions := List.insert ''vector'' (extensions d),
       tables := (tables d)(TABLE_NAME \<mapsto>
         \<lparr>columns = (''id'', ''SERIAL PRIMARY KEY'') # DATABASE_SCHEMA, rows = []\<rparr>)\<rparr>"

text \<open>
  The ranking as the specification words it: the stored rows in insertion order, sorted
  stably by distance, the first five. It is compared with \<^verbatim>\<open>retrieve\<close> below.
\<close>

definition spec_stable_ranking ::
  "('v, 'd::linorder) world \<Rightarrow> 'v table \<Rightarrow> 'v \<Rightarrow> string list" where
  "spec_stable_ranking w tb q =
     map fst (take 5 (sort_key (\<lambda>row. distance w (snd row) q) (rows tb)))"

text \<open>
  A world whose executor delivers the rows of a table last inserted first, a table with
  two rows that hold the same vector, and a table with seven rows.
\<close>

definition reversing_world :: "(int, int) world" where
  "reversing_world = calm_world\<lparr>row_order := rev\<rparr>"

definition tied_table :: "int table" where
  "tied_table =
     \<lparr>columns = (''id'', ''SERIAL PRIMARY KEY'') # DATABASE_SCHEMA,
      rows = [(''first'', 4), (''second'', 4)]\<rparr>"

definition tied_state :: "int state" where
  "tied_state =
     \<lparr>db = \<lparr>extensions = [''vector''], tables = (\<lambda>t. None)(TABLE_NAME \<mapsto> tied_table)\<rparr>,
      borrowed = [], trace = [], chat_history = []\<rparr>"

definition seven_rows :: "int table" where
  "seven_rows =
     \<lparr>columns = (''id'', ''SERIAL PRIMARY KEY'') # DATABASE_SCHEMA,
      rows = [(''a'', 9), (''b'', 2), (''c'', 7), (''d'', 4), (''e'', 1), (''f'', 8), (''g'', 3)]\<rparr>"

definition seven_rows_state :: "int state" where
  "seven_rows_state =
     \<lparr>db = \<lparr>extensions = [''vector''], tables = (\<lambda>t. None)(TABLE_NAME \<mapsto> seven_rows)\<rparr>,
      borrowed = [], trace = [], chat_history = []\<rparr>"

text \<open>
  The messages sent to the chat model, in order.
\<close>

fun sent :: "event list \<Rightarrow> string list" where
  "sent [] = []"
| "sent (Send m # evs) = m # sent evs"
| "sent (ev # evs) = sent evs"

text \<open>
  The context of the second message as the specification words it: the refreshed
  context, a newline, the chunks joined by newlines. It is compared with the loop below.
\<close>

definition spec_answer_context :: "string \<Rightarrow> string list \<Rightarrow> string" where
  "spec_answer_context refreshed chunks = refreshed @ nl @ str_join nl chunks"

text \<open>
  The state with seven stored rows after one turn: the history holds one query.
\<close>

definition q1_state :: "int state" where
  "q1_state = seven_rows_state\<lparr>chat_history := [''Q1'']\<rparr>"

text \<open>
  Two lines of input: during the first the server refuses the query, the second would
  succeed.
\<close>

definition two_lines :: "((int, int) world \<times> string) list" where
  "two_lines = [(refusing_world, ''Q2''), (calm_world, ''Q3'')]"

text \<open>
  A world that has lost its connection to the server: every statement is refused and the
  rollback raises as well.
\<close>

definition connection_closed :: exn where
  "connection_closed = Exn ''InterfaceError'' ''connection already closed''"

definition lost_world :: "(int, int) world" where
  "lost_world = refusing_world\<lparr>rollback_error := Some connection_closed\<rparr>"

text \<open>
  A world whose pool refuses the acquisition, and a state in which ten connections are
  borrowed.
\<close>

definition exhausted_world :: "(int, int) world" where
  "exhausted_world = calm_world\<lparr>getconn_result := Inl pool_exhausted\<rparr>"

definition saturated_state :: "int state" where
  "saturated_state = stocked_state\<lparr>borrowed := [0..<pool_maxconn]\<rparr>"

section \<open>Lemmas on the operations\<close>

subsection \<open>Blocks that run with a borrowed connection\<close>

lemma block_effectI:
  "list_all quiet evs \<Longrightarrow> s' = s\<lparr>db := d, trace := trace s @ evs\<rparr> \<Longrightarrow>
   (\<And>e. r = Inl e \<Longrightarrow> e \<in> database_errors w) \<Longrightarrow> block_effect w s r s'"
  unfolding block_effect_def by blast

lemma exec_stmt_error:
  "exec_stmt d st = Inl e \<Longrightarrow> \<exists>t. e = undefined_table t"
  by (cases st) (auto split: option.splits)

lemma exec_script_error:
  "exec_script w i script d = Inl e \<Longrightarrow> e \<in> database_errors w"
proof (induction script arbitrary: i d)
  case Nil
  then show ?case by simp
next
  case (Cons st sts)
  show ?case
  proof (cases "server_error w i st")
    case (Some e')
    with Cons.prems have "e = e'" by simp
    with Some show ?thesis unfolding database_errors_def by blast
  next
    case None
    show ?thesis
    proof (cases "exec_stmt d st")
      case (Inl e')
      with None Cons.prems have "e = e'" by simp
      with Inl exec_stmt_error[of d st e'] show ?thesis unfolding database_errors_def by blast
    next
      case (Inr d')
      with None Cons.prems have "exec_script w (Suc i) sts d' = Inl e" by simp
      then show ?thesis by (rule Cons.IH)
    qed
  qed
qed

lemma cursor_execute_effect:
  assumes "cursor_execute w script s = (r, s')"
  shows "block_effect w s r s'"
proof (cases "exec_script w 0 script (db s)")
  case (Inl e)
  with assms have "s' = s\<lparr>db := db s, trace := trace s @ []\<rparr>" and "r = Inl e"
    by (simp_all add: cursor_execute_def)
  with exec_script_error[OF Inl] show ?thesis
    by (intro block_effectI[where evs = "[]" and d = "db s"]) simp_all
next
  case (Inr d)
  with assms have "s' = s\<lparr>db := d, trace := trace s @ []\<rparr>" and "r = Inr ()"
    by (auto simp add: cursor_execute_def)
  then show ?thesis
    by (intro block_effectI[where evs = "[]" and d = d]) simp_all
qed

lemma with_cursor_effect:
  assumes "with_cursor w body s = (r, s')"
      and "\<And>rb sb. body s = (rb, sb) \<Longrightarrow> block_effect w s rb sb"
  shows "block_effect w s r s'"
proof (cases "cursor_error w")
  case None
  with assms(1) have "body s = (r, s')" by (simp add: with_cursor_def)
  then show ?thesis by (rule assms(2))
next
  case (Some e)
  with assms(1) have "s' = s\<lparr>db := db s, trace := trace s @ []\<rparr>" and "r = Inl e"
    by (simp_all add: with_cursor_def)
  with Some show ?thesis
    by (intro block_effectI[where evs = "[]" and d = "db s"]) (simp_all add: database_errors_def)
qed

lemma with_connection_effect:
  assumes wc: "with_connection w c body s = (r, s')"
      and body: "\<And>rb sb. body s = (rb, sb) \<Longrightarrow> block_effect w s rb sb"
  shows "block_effect w s r s' \<and> (\<forall>e. r = Inl e \<longrightarrow> db s' = db s)"
proof -
  obtain rb sb where b: "body s = (rb, sb)" by (cases "body s")
  from body[OF b] obtain d evs where q: "list_all quiet evs"
    and sb: "sb = s\<lparr>db := d, trace := trace s @ evs\<rparr>"
    and eb: "\<And>e. rb = Inl e \<Longrightarrow> e \<in> database_errors w"
    unfolding block_effect_def by blast
  show ?thesis
  proof (cases rb)
    case (Inl e)
    show ?thesis
    proof (cases "rollback_error w")
      case None
      with Inl wc b sb have s': "s' = s\<lparr>db := db s, trace := trace s @ (evs @ [Rollback c])\<rparr>"
        and r: "r = Inl e"
        by (auto simp: with_connection_def emit_def)
      have "block_effect w s r s'"
      proof (rule block_effectI[where evs = "evs @ [Rollback c]" and d = "db s"])
        show "list_all quiet (evs @ [Rollback c])" using q by simp
        show "s' = s\<lparr>db := db s, trace := trace s @ evs @ [Rollback c]\<rparr>" by (rule s')
        show "\<And>e'. r = Inl e' \<Longrightarrow> e' \<in> database_errors w" using r eb[OF Inl] by simp
      qed
      with s' show ?thesis by simp
    next
      case (Some e2)
      with Inl wc b sb have s': "s' = s\<lparr>db := db s, trace := trace s @ evs\<rparr>"
        and r: "r = Inl e2"
        by (auto simp: with_connection_def emit_def)
      have "block_effect w s r s'"
      proof (rule block_effectI[where evs = evs and d = "db s"])
        show "list_all quiet evs" by (rule q)
        show "s' = s\<lparr>db := db s, trace := trace s @ evs\<rparr>" by (rule s')
        show "\<And>e'. r = Inl e' \<Longrightarrow> e' \<in> database_errors w"
          using r Some by (simp add: database_errors_def)
      qed
      with s' show ?thesis by simp
    qed
  next
    case (Inr x)
    show ?thesis
    proof (cases "commit_error w")
      case None
      with Inr wc b sb have s': "s' = s\<lparr>db := d, trace := trace s @ (evs @ [Commit c])\<rparr>"
        and r: "r = Inr x"
        by (auto simp: with_connection_def emit_def)
      have "block_effect w s r s'"
      proof (rule block_effectI[where evs = "evs @ [Commit c]" and d = d])
        show "list_all quiet (evs @ [Commit c])" using q by simp
        show "s' = s\<lparr>db := d, trace := trace s @ evs @ [Commit c]\<rparr>" by (rule s')
        show "\<And>e'. r = Inl e' \<Longrightarrow> e' \<in> database_errors w" using r by simp
      qed
      with r show ?thesis by simp
    next
      case (Some e)
      with Inr wc b sb have s': "s' = s\<lparr>db := db s, trace := trace s @ evs\<rparr>"
        and r: "r = Inl e"
        by (auto simp: with_connection_def emit_def)
      have "block_effect w s r s'"
      proof (rule block_effectI[where evs = evs and d = "db s"])
        show "list_all quiet evs" by (rule q)
        show "s' = s\<lparr>db := db s, trace := trace s @ evs\<rparr>" by (rule s')
        show "\<And>e'. r = Inl e' \<Longrightarrow> e' \<in> database_errors w"
          using r Some by (simp add: database_errors_def)
      qed
      with s' show ?thesis by simp
    qed
  qed
qed

lemma store_op_effect_raised:
  assumes "getconn_result w = Inr c" and "list_all quiet evs" and "e \<in> database_errors w"
      and "s' = s\<lparr>trace := trace s @ Getconn c # evs
                            @ [LogError (label @ exn_text e), Putconn c]\<rparr>"
  shows "store_op_effect w label s (Inl e) s'"
  using assms unfolding store_op_effect_def by auto

lemma store_op_effect_returned:
  assumes "getconn_result w = Inr c" and "list_all quiet evs"
      and "s' = s\<lparr>db := d, trace := trace s @ Getconn c # evs @ [Putconn c]\<rparr>"
  shows "store_op_effect w label s (Inr x) s'"
  using assms unfolding store_op_effect_def by auto

text \<open>The try / except / finally frame the three methods share.\<close>

lemma pooled_block_effect:
  assumes res:
    "(case getconn_result w of
        Inl e \<Rightarrow> (Inl (unbound_local ''connection''), logger_error (label @ exn_text e) s)
      | Inr c \<Rightarrow>
          (case block c (getconn c s) of
             (Inl e, s1) \<Rightarrow> (Inl e, putconn c (logger_error (label @ exn_text e) s1))
           | (Inr x, s1) \<Rightarrow> (Inr x, putconn c s1))) = (r, s')"
    and block: "\<And>c r1 s1. block c (getconn c s) = (r1, s1) \<Longrightarrow>
       block_effect w (getconn c s) r1 s1 \<and> (\<forall>e. r1 = Inl e \<longrightarrow> db s1 = db s)"
  shows "store_op_effect w label s r s'"
proof (cases "getconn_result w")
  case (Inl e0)
  with res show ?thesis
    by (auto simp: store_op_effect_def logger_error_def emit_def)
next
  case c: (Inr c)
  obtain r1 s1 where b: "block c (getconn c s) = (r1, s1)" by (cases "block c (getconn c s)")
  from block[OF b] obtain d evs where q: "list_all quiet evs"
    and s1: "s1 = (getconn c s)\<lparr>db := d, trace := trace (getconn c s) @ evs\<rparr>"
    and e1: "\<And>e. r1 = Inl e \<Longrightarrow> e \<in> database_errors w \<and> db s1 = db s"
    unfolding block_effect_def by blast
  show ?thesis
  proof (cases r1)
    case (Inl e)
    from e1[OF Inl] s1 have d: "d = db s" and e: "e \<in> database_errors w" by simp_all
    from c Inl res b have "r = Inl e"
      and "s' = putconn c (logger_error (label @ exn_text e) s1)" by simp_all
    with s1 d have "s' = s\<lparr>trace := trace s @ Getconn c # evs
                            @ [LogError (label @ exn_text e), Putconn c]\<rparr>"
      by (simp add: logger_error_def emit_def getconn_def putconn_def)
    with c q e \<open>r = Inl e\<close> show ?thesis by (simp add: store_op_effect_raised)
  next
    case (Inr x)
    from c Inr res b have "r = Inr x" and "s' = putconn c s1" by simp_all
    with s1 have "s' = s\<lparr>db := d, trace := trace s @ Getconn c # evs @ [Putconn c]\<rparr>"
      by (simp add: emit_def getconn_def putconn_def)
    with c q \<open>r = Inr x\<close> show ?thesis by (simp add: store_op_effect_returned)
  qed
qed

text \<open>The result of a transaction: the exception that leaves the block, or the value.\<close>

lemma with_connection_fst:
  "fst (with_connection w c body s) =
     (case fst (body s) of
        Inl e0 \<Rightarrow> Inl (case rollback_error w of Some e' \<Rightarrow> e' | None \<Rightarrow> e0)
      | Inr r \<Rightarrow> (case commit_error w of Some e \<Rightarrow> Inl e | None \<Rightarrow> Inr r))"
  by (auto simp: with_connection_def split: prod.splits sum.splits option.splits)

lemma cursor_block_fst:
  "fst (with_cursor w (cursor_execute w script) s) =
     (case statement_error w script (db s) of Some e \<Rightarrow> Inl e | None \<Rightarrow> Inr ())"
  by (auto simp: with_cursor_def cursor_execute_def statement_error_def
      split: option.splits sum.splits)

lemma frame_fst:
  "fst (case p of (Inl e, s1) \<Rightarrow> (Inl e, f e s1) | (Inr x, s1) \<Rightarrow> (Inr x, g s1)) = fst p"
  by (cases p; cases "fst p") auto

lemma db_getconn: "db (getconn c s) = db s"
  by (simp add: getconn_def emit_def)

subsection \<open>Events of a store operation\<close>

lemma quiet_no_pool_call: "list_all quiet evs \<Longrightarrow> filter is_pool_call evs = []"
proof (induction evs)
  case Nil
  then show ?case by simp
next
  case (Cons ev evs)
  then show ?case by (cases ev) simp_all
qed

lemma quiet_no_embed_call: "list_all quiet evs \<Longrightarrow> filter is_embed_call evs = []"
proof (induction evs)
  case Nil
  then show ?case by simp
next
  case (Cons ev evs)
  then show ?case by (cases ev) simp_all
qed

lemma embedding_no_store_call:
  "list_all embedding_event evs \<Longrightarrow> filter is_store_call evs = []"
proof (induction evs)
  case Nil
  then show ?case by simp
next
  case (Cons ev evs)
  then show ?case by (cases ev) simp_all
qed

lemma embedding_no_pool_call: "list_all embedding_event evs \<Longrightarrow> filter is_pool_call evs = []"
proof (induction evs)
  case Nil
  then show ?case by simp
next
  case (Cons ev evs)
  then show ?case by (cases ev) simp_all
qed

lemma drop_new_events: "trace s' = trace s @ evs \<Longrightarrow> new_events s s' = evs"
  by (simp add: new_events_def)

lemma store_op_effect_pool:
  assumes "store_op_effect w label s r s'"
  shows "borrowed s' = borrowed s \<and> chat_history s' = chat_history s \<and>
         (\<exists>evs. trace s' = trace s @ evs \<and> filter is_pool_call evs = pool_use w
                \<and> filter is_embed_call evs = [])"
proof (cases "getconn_result w")
  case (Inl e0)
  with assms show ?thesis by (simp add: store_op_effect_def pool_use_def)
next
  case (Inr c)
  with assms obtain d evs where q: "list_all quiet evs"
    and r: "case r of
              Inl e \<Rightarrow> e \<in> database_errors w \<and>
                s' = s\<lparr>trace := trace s @ Getconn c # evs @ [LogError (label @ exn_text e), Putconn c]\<rparr>
            | Inr x \<Rightarrow> s' = s\<lparr>db := d, trace := trace s @ Getconn c # evs @ [Putconn c]\<rparr>"
    unfolding store_op_effect_def by auto
  from q have p: "filter is_pool_call evs = []" by (rule quiet_no_pool_call)
  from q have m: "filter is_embed_call evs = []" by (rule quiet_no_embed_call)
  show ?thesis
  proof (cases r)
    case (Inl e)
    with r have "s' = s\<lparr>trace := trace s @ Getconn c # evs @ [LogError (label @ exn_text e), Putconn c]\<rparr>"
      by simp
    with p m Inr show ?thesis by (simp add: pool_use_def)
  next
    case r2: (Inr x)
    with r have "s' = s\<lparr>db := d, trace := trace s @ Getconn c # evs @ [Putconn c]\<rparr>" by simp
    with p m Inr show ?thesis by (simp add: pool_use_def)
  qed
qed


lemma store_op_raised_and_logged:
  assumes eff: "store_op_effect w label s0 (fst out) (snd out)"
      and c: "getconn_result w = Inr c"
      and t: "trace s0 = trace s @ evs0"
      and r: "fst out = Inl e"
  shows "raised_and_logged out s label c e"
proof -
  from eff c r obtain evs where
    s': "snd out = s0\<lparr>trace := trace s0 @ Getconn c # evs
                             @ [LogError (label @ exn_text e), Putconn c]\<rparr>"
    unfolding store_op_effect_def by auto
  from s' t have "trace (snd out) =
      trace s @ ((evs0 @ Getconn c # evs) @ [LogError (label @ exn_text e), Putconn c])"
    by simp
  then have "prefix (trace s) (trace (snd out))"
    and "new_events s (snd out) = (evs0 @ Getconn c # evs) @ [LogError (label @ exn_text e), Putconn c]"
    by (simp_all add: new_events_def)
  with r show ?thesis unfolding raised_and_logged_def suffix_def by blast
qed

subsection \<open>The splitter and the embedding step\<close>

lemma text_embedding_state:
  "text_embedding w i txt s = (r, s') \<Longrightarrow> s' = s\<lparr>trace := trace s @ [EmbedCall txt]\<rparr>"
  by (auto simp: text_embedding_def emit_def Let_def split: sum.splits if_splits)

lemma embed_chunks_state:
  "embed_chunks w i chunks acc s = (r, s') \<Longrightarrow>
     \<exists>evs. list_all embedding_event evs \<and> s' = s\<lparr>trace := trace s @ evs\<rparr>"
proof (induction chunks arbitrary: i acc s)
  case Nil
  then have "s' = s\<lparr>trace := trace s @ []\<rparr>" by simp
  moreover have "list_all embedding_event []" by simp
  ultimately show ?case by blast
next
  case (Cons c cs)
  obtain r1 s1 where t: "text_embedding w i c s = (r1, s1)" by (cases "text_embedding w i c s")
  then have s1: "s1 = s\<lparr>trace := trace s @ [EmbedCall c]\<rparr>" by (rule text_embedding_state)
  show ?case
  proof (cases r1)
    case (Inl e)
    with Cons.prems t s1 have "s' = s\<lparr>trace := trace s @ [EmbedCall c]\<rparr>" by simp
    moreover have "list_all embedding_event [EmbedCall c]" by simp
    ultimately show ?thesis by blast
  next
    case (Inr v)
    with Cons.prems t
    have "embed_chunks w (Suc i) cs (acc @ [\<lparr>te_text = c, te_embedding = v\<rparr>]) s1 = (r, s')"
      by simp
    from Cons.IH[OF this] obtain evs where
      evs: "s' = s1\<lparr>trace := trace s1 @ evs\<rparr>" "list_all embedding_event evs" by blast
    from evs s1 have "s' = s\<lparr>trace := trace s @ (EmbedCall c # evs)\<rparr>" by simp
    moreover from evs have "list_all embedding_event (EmbedCall c # evs)" by simp
    ultimately show ?thesis by blast
  qed
qed

lemma get_text_embedding_pairs_state:
  assumes "get_text_embedding_pairs w txt s = (r, s')"
  shows "\<exists>evs. list_all embedding_event evs \<and> s' = s\<lparr>trace := trace s @ evs\<rparr>"
proof (cases "split_input_to_chunks w txt")
  case (Inl e)
  with assms have "s' = s\<lparr>trace := trace s @ []\<rparr>" by (simp add: get_text_embedding_pairs_def)
  moreover have "list_all embedding_event []" by simp
  ultimately show ?thesis by blast
next
  case (Inr chunks)
  define msg where "msg = LogInfo (''Number of chunks generated: '' @ str_of_nat (length chunks))"
  from Inr assms have "embed_chunks w 0 chunks [] (s\<lparr>trace := trace s @ [msg]\<rparr>) = (r, s')"
    by (simp add: get_text_embedding_pairs_def logger_info_def emit_def msg_def)
  from embed_chunks_state[OF this] obtain evs where
    evs: "s' = s\<lparr>trace := trace s @ (msg # evs)\<rparr>" "list_all embedding_event evs" by auto
  have "list_all embedding_event (msg # evs)" using evs(2) by (simp add: msg_def)
  with evs(1) show ?thesis by blast
qed

lemma embed_chunks_first_failure:
  assumes "k < length chunks"
      and "get_embeddings w (i + k) (chunks ! k) = Inl e"
      and "\<forall>j<k. \<exists>vs. get_embeddings w (i + j) (chunks ! j) = Inr vs \<and> vs \<noteq> []"
  shows "embed_chunks w i chunks acc s =
           (Inl e, s\<lparr>trace := trace s @ map EmbedCall (take (Suc k) chunks)\<rparr>)"
  using assms
proof (induction chunks arbitrary: i k acc s)
  case Nil
  then show ?case by simp
next
  case (Cons c cs)
  show ?case
  proof (cases k)
    case 0
    with Cons.prems(2) show ?thesis
      by (simp add: text_embedding_def emit_def)
  next
    case (Suc k')
    from Cons.prems(3) Suc obtain vs where vs: "get_embeddings w i c = Inr vs" "vs \<noteq> []"
      by force
    have 1: "k' < length cs" using Cons.prems(1) Suc by simp
    have 2: "get_embeddings w (Suc i + k') (cs ! k') = Inl e" using Cons.prems(2) Suc by simp
    have 3: "\<forall>j<k'. \<exists>vs. get_embeddings w (Suc i + j) (cs ! j) = Inr vs \<and> vs \<noteq> []"
    proof (intro allI impI)
      fix j assume "j < k'"
      then have "Suc j < k" using Suc by simp
      with Cons.prems(3) have "\<exists>vs. get_embeddings w (i + Suc j) ((c # cs) ! Suc j) = Inr vs \<and> vs \<noteq> []"
        by blast
      then show "\<exists>vs. get_embeddings w (Suc i + j) (cs ! j) = Inr vs \<and> vs \<noteq> []" by simp
    qed
    from Cons.IH[OF 1 2 3] vs Suc show ?thesis
      by (simp add: text_embedding_def emit_def)
  qed
qed

lemma calm_pairs:
  "fst (get_text_embedding_pairs (calm_world\<lparr>server_error := f\<rparr>) ''doc'' s)
     = Inr [\<lparr>te_text = ''doc'', te_embedding = 3\<rparr>]"
  by (simp add: get_text_embedding_pairs_def split_input_to_chunks_def text_embedding_def
        calm_world_def Let_def)

subsection \<open>Creating the table\<close>

lemma table_creation_block:
  assumes "with_connection w c (with_cursor w (cursor_execute w script)) s = (r, s')"
  shows "block_effect w s r s' \<and> (\<forall>e. r = Inl e \<longrightarrow> db s' = db s)"
  using assms
proof (rule with_connection_effect)
  fix rb sb
  assume "with_cursor w (cursor_execute w script) s = (rb, sb)"
  then show "block_effect w s rb sb"
    by (rule with_cursor_effect) (rule cursor_execute_effect)
qed

lemma create_table_effect:
  assumes "create_table w s = (r, s')"
  shows "store_op_effect w ''Error in create table query: ''
           (logger_info table_creation_query s) r s'"
proof (rule pooled_block_effect)
  show "(case getconn_result w of
        Inl e \<Rightarrow> (Inl (unbound_local ''connection''),
                  logger_error (''Error in create table query: '' @ exn_text e)
                    (logger_info table_creation_query s))
      | Inr c \<Rightarrow>
          (case with_connection w c (with_cursor w (cursor_execute w table_creation_script))
                  (getconn c (logger_info table_creation_query s)) of
             (Inl e, s1) \<Rightarrow> (Inl e, putconn c (logger_error (''Error in create table query: '' @ exn_text e) s1))
           | (Inr x, s1) \<Rightarrow> (Inr x, putconn c s1))) = (r, s')"
    using assms by (simp add: create_table_def Let_def)
next
  fix c r1 s1
  assume "with_connection w c (with_cursor w (cursor_execute w table_creation_script))
            (getconn c (logger_info table_creation_query s)) = (r1, s1)"
  from table_creation_block[OF this]
  show "block_effect w (getconn c (logger_info table_creation_query s)) r1 s1 \<and>
        (\<forall>e. r1 = Inl e \<longrightarrow> db s1 = db (logger_info table_creation_query s))"
    by (simp add: db_getconn)
qed

lemma create_table_pool:
  "borrowed (snd (create_table w s)) = borrowed s \<and>
   prefix (trace s) (trace (snd (create_table w s))) \<and>
   filter is_pool_call (new_events s (snd (create_table w s))) = pool_use w"
proof -
  obtain r s' where c: "create_table w s = (r, s')" by (cases "create_table w s")
  define s0 where "s0 = logger_info table_creation_query s"
  from create_table_effect[OF c] have "store_op_effect w ''Error in create table query: '' s0 r s'"
    by (simp add: s0_def)
  from store_op_effect_pool[OF this] obtain evs where
    b: "borrowed s' = borrowed s0" and t: "trace s' = trace s0 @ evs"
    and p: "filter is_pool_call evs = pool_use w" by blast
  have t0: "trace s0 = trace s @ [LogInfo table_creation_query]" and b0: "borrowed s0 = borrowed s"
    by (simp_all add: s0_def logger_info_def emit_def)
  from t t0 have t': "trace s' = trace s @ (LogInfo table_creation_query # evs)" by simp
  from drop_new_events[OF t'] p have "filter is_pool_call (new_events s s') = pool_use w" by simp
  with b b0 t' c show ?thesis by simp
qed

lemma create_table_accepted:
  assumes "accepts_table_creation w"
  shows "\<exists>c. getconn_result w = Inr c \<and>
           create_table w s =
             (Inr (),
              s\<lparr>db := recreated (db s),
                trace := trace s @ [LogInfo table_creation_query, Getconn c, Commit c, Putconn c]\<rparr>)"
proof -
  from assms obtain c where c: "getconn_result w = Inr c"
    by (auto simp: accepts_table_creation_def split: sum.splits)
  from assms have x: "exec_script w 0 table_creation_script d = Inr (recreated d)" for d :: "'a database"
    by (simp add: accepts_table_creation_def table_creation_script_def recreated_def)
  from assms have "cursor_error w = None" and "commit_error w = None"
    by (simp_all add: accepts_table_creation_def)
  with c x have "create_table w s =
             (Inr (),
              s\<lparr>db := recreated (db s),
                trace := trace s @ [LogInfo table_creation_query, Getconn c, Commit c, Putconn c]\<rparr>)"
    by (simp add: create_table_def with_connection_def with_cursor_def cursor_execute_def
          getconn_def putconn_def logger_info_def emit_def Let_def)
  with c show ?thesis by blast
qed

lemma create_table_fst:
  assumes "getconn_result w = Inr c"
  shows "fst (create_table w s) =
           fst (with_connection w c (with_cursor w (cursor_execute w table_creation_script))
                  (getconn c (logger_info table_creation_query s)))"
  using assms by (simp add: create_table_def Let_def frame_fst)

lemma recreated_idem: "recreated (recreated d) = recreated d"
  by (simp add: recreated_def List.insert_def)

subsection \<open>Ingesting\<close>

lemma ingest_body_effect:
  assumes "(case execute_values w t cols data_list sc of
              (Inl e, sc') \<Rightarrow> (Inl e, sc')
            | (Inr u, sc') \<Rightarrow> (Inr u, logger_info msg sc')) = (rb, sb)"
  shows "block_effect w sc rb sb"
proof -
  obtain r1 s1 where x: "execute_values w t cols data_list sc = (r1, s1)"
    by (cases "execute_values w t cols data_list sc")
  then have "block_effect w sc r1 s1"
    unfolding execute_values_def by (rule cursor_execute_effect)
  then obtain d evs where q: "list_all quiet evs"
    and s1: "s1 = sc\<lparr>db := d, trace := trace sc @ evs\<rparr>"
    and e1: "\<And>e. r1 = Inl e \<Longrightarrow> e \<in> database_errors w"
    unfolding block_effect_def by blast
  show ?thesis
  proof (cases r1)
    case (Inl e)
    with assms x have "rb = Inl e" and "sb = s1" by simp_all
    with \<open>block_effect w sc r1 s1\<close> Inl show ?thesis by simp
  next
    case (Inr u)
    with assms x have rb: "rb = Inr u" and sb: "sb = logger_info msg s1" by simp_all
    show ?thesis
    proof (rule block_effectI[where evs = "evs @ [LogInfo msg]" and d = d])
      show "list_all quiet (evs @ [LogInfo msg])" using q by simp
      show "sb = sc\<lparr>db := d, trace := trace sc @ evs @ [LogInfo msg]\<rparr>"
        using sb s1 by (simp add: logger_info_def emit_def)
      show "\<And>e. rb = Inl e \<Longrightarrow> e \<in> database_errors w" using rb by simp
    qed
  qed
qed

lemma ingest_raised_early:
  "get_text_embedding_pairs w txt s = (Inl e, s0) \<Longrightarrow> ingest w txt s = (Inl e, s0)"
  by (simp add: ingest_def)

lemma ingest_effect:
  assumes g: "get_text_embedding_pairs w txt s = (Inr pairs, s0)"
      and i: "ingest w txt s = (r, s')"
  shows "store_op_effect w ''Error in update table query : '' s0 r s'"
proof (rule pooled_block_effect[where block = "\<lambda>c.
          with_connection w c
            (with_cursor w
               (\<lambda>sc. case execute_values w TABLE_NAME (map fst DATABASE_SCHEMA)
                              (map (\<lambda>curr. (te_text curr, te_embedding curr)) pairs) sc of
                        (Inl e, sc') \<Rightarrow> (Inl e, sc')
                      | (Inr u, sc') \<Rightarrow>
                          (Inr u, logger_info ''Updated table with embedding pairs'' sc')))"])
  show "(case getconn_result w of
        Inl e \<Rightarrow> (Inl (unbound_local ''connection''),
                  logger_error (''Error in update table query : '' @ exn_text e) s0)
      | Inr c \<Rightarrow>
          (case with_connection w c
            (with_cursor w
               (\<lambda>sc. case execute_values w TABLE_NAME (map fst DATABASE_SCHEMA)
                              (map (\<lambda>curr. (te_text curr, te_embedding curr)) pairs) sc of
                        (Inl e, sc') \<Rightarrow> (Inl e, sc')
                      | (Inr u, sc') \<Rightarrow>
                          (Inr u, logger_info ''Updated table with embedding pairs'' sc')))
                  (getconn c s0) of
             (Inl e, s1) \<Rightarrow> (Inl e, putconn c (logger_error (''Error in update table query : '' @ exn_text e) s1))
           | (Inr x, s1) \<Rightarrow> (Inr x, putconn c s1))) = (r, s')"
    using g i by (simp add: ingest_def Let_def)
next
  fix c r1 s1
  assume "with_connection w c
            (with_cursor w
               (\<lambda>sc. case execute_values w TABLE_NAME (map fst DATABASE_SCHEMA)
                              (map (\<lambda>curr. (te_text curr, te_embedding curr)) pairs) sc of
                        (Inl e, sc') \<Rightarrow> (Inl e, sc')
                      | (Inr u, sc') \<Rightarrow>
                          (Inr u, logger_info ''Updated table with embedding pairs'' sc')))
            (getconn c s0) = (r1, s1)"
  then have "block_effect w (getconn c s0) r1 s1 \<and> (\<forall>e. r1 = Inl e \<longrightarrow> db s1 = db (getconn c s0))"
  proof (rule with_connection_effect)
    fix rb sb
    assume "with_cursor w
               (\<lambda>sc. case execute_values w TABLE_NAME (map fst DATABASE_SCHEMA)
                              (map (\<lambda>curr. (te_text curr, te_embedding curr)) pairs) sc of
                        (Inl e, sc') \<Rightarrow> (Inl e, sc')
                      | (Inr u, sc') \<Rightarrow>
                          (Inr u, logger_info ''Updated table with embedding pairs'' sc'))
               (getconn c s0) = (rb, sb)"
    then show "block_effect w (getconn c s0) rb sb"
      by (rule with_cursor_effect) (rule ingest_body_effect)
  qed
  then show "block_effect w (getconn c s0) r1 s1 \<and> (\<forall>e. r1 = Inl e \<longrightarrow> db s1 = db s0)"
    by (simp add: db_getconn)
qed

lemma ingest_pool:
  "borrowed (snd (ingest w txt s)) = borrowed s \<and>
   prefix (trace s) (trace (snd (ingest w txt s))) \<and>
   filter is_pool_call (new_events s (snd (ingest w txt s))) =
     (case fst (get_text_embedding_pairs w txt s) of Inl e \<Rightarrow> [] | Inr pairs \<Rightarrow> pool_use w)"
proof -
  obtain r0 s0 where g: "get_text_embedding_pairs w txt s = (r0, s0)"
    by (cases "get_text_embedding_pairs w txt s")
  from get_text_embedding_pairs_state[OF g] obtain evs0 where
    q0: "list_all embedding_event evs0" and s0: "s0 = s\<lparr>trace := trace s @ evs0\<rparr>" by blast
  from q0 have p0: "filter is_pool_call evs0 = []" by (rule embedding_no_pool_call)
  show ?thesis
  proof (cases r0)
    case (Inl e)
    with g have "ingest w txt s = (Inl e, s0)" by (simp add: ingest_raised_early)
    moreover from s0 have "new_events s s0 = evs0" by (simp add: new_events_def)
    ultimately show ?thesis using g Inl s0 p0 by simp
  next
    case (Inr pairs)
    obtain r s' where i: "ingest w txt s = (r, s')" by (cases "ingest w txt s")
    from g Inr have "get_text_embedding_pairs w txt s = (Inr pairs, s0)" by simp
    from store_op_effect_pool[OF ingest_effect[OF this i]] obtain evs where
      b: "borrowed s' = borrowed s0" and t: "trace s' = trace s0 @ evs"
      and p: "filter is_pool_call evs = pool_use w" by blast
    from t s0 have t': "trace s' = trace s @ (evs0 @ evs)" by simp
    from drop_new_events[OF t'] p p0 have "filter is_pool_call (new_events s s') = pool_use w"
      by simp
    with b s0 t' i g Inr show ?thesis by simp
  qed
qed

lemma ingest_embedding_raised:
  assumes "get_text_embedding_pairs w doc s = (Inl e, s0)"
  shows "ingest w doc s = (Inl e, s0) \<and> db s0 = db s \<and> borrowed s0 = borrowed s
       \<and> filter is_store_call (new_events s s0) = []"
proof -
  from get_text_embedding_pairs_state[OF assms] obtain evs where
    q: "list_all embedding_event evs" and s0: "s0 = s\<lparr>trace := trace s @ evs\<rparr>" by blast
  from s0 have "new_events s s0 = evs" by (simp add: new_events_def)
  with embedding_no_store_call[OF q] have "filter is_store_call (new_events s s0) = []" by simp
  with ingest_raised_early[OF assms] s0 show ?thesis by simp
qed

lemma ingest_embeds_first:
  "filter is_embed_call
     (new_events (snd (get_text_embedding_pairs w doc s)) (snd (ingest w doc s))) = []"
proof -
  obtain r0 s0 where g: "get_text_embedding_pairs w doc s = (r0, s0)"
    by (cases "get_text_embedding_pairs w doc s")
  show ?thesis
  proof (cases r0)
    case (Inl e)
    with g have "ingest w doc s = (Inl e, s0)" by (simp add: ingest_raised_early)
    with g show ?thesis by (simp add: new_events_def)
  next
    case (Inr pairs)
    obtain r s' where i: "ingest w doc s = (r, s')" by (cases "ingest w doc s")
    from g Inr have "get_text_embedding_pairs w doc s = (Inr pairs, s0)" by simp
    from store_op_effect_pool[OF ingest_effect[OF this i]] obtain evs where
      t: "trace s' = trace s0 @ evs" and m: "filter is_embed_call evs = []" by blast
    from drop_new_events[OF t] m g i show ?thesis by simp
  qed
qed






lemma ingest_body_fst:
  "fst (with_cursor w
          (\<lambda>sc. case execute_values w t cols data_list sc of
                   (Inl e, sc') \<Rightarrow> (Inl e, sc')
                 | (Inr u, sc') \<Rightarrow> (Inr u, logger_info msg sc')) s) =
     (case statement_error w (map (InsertValues t cols) (paginate 100 data_list)) (db s) of
        Some e \<Rightarrow> Inl e | None \<Rightarrow> Inr ())"
  by (auto simp: with_cursor_def execute_values_def cursor_execute_def statement_error_def
      split: option.splits sum.splits)

lemma ingest_fst:
  assumes "getconn_result w = Inr c" and "get_text_embedding_pairs w doc s = (Inr pairs, s0)"
  shows "fst (ingest w doc s) =
           fst (with_connection w c
                  (with_cursor w
                     (\<lambda>sc. case execute_values w TABLE_NAME (map fst DATABASE_SCHEMA)
                                    (map (\<lambda>curr. (te_text curr, te_embedding curr)) pairs) sc of
                              (Inl e, sc') \<Rightarrow> (Inl e, sc')
                            | (Inr u, sc') \<Rightarrow>
                                (Inr u, logger_info ''Updated table with embedding pairs'' sc')))
                  (getconn c s0))"
  using assms by (simp add: ingest_def Let_def frame_fst)

lemma refused_ingest:
  "fst (ingest refusing_world ''doc'' stocked_state) = Inl connection_lost"
  by (simp add: ingest_def get_text_embedding_pairs_def split_input_to_chunks_def
        text_embedding_def refusing_world_def calm_world_def with_connection_def
        with_cursor_def execute_values_def cursor_execute_def paginate.simps Let_def)

subsection \<open>Retrieving\<close>

lemma retrieve_raised_early:
  "text_embedding w 0 query s = (Inl e, s0) \<Longrightarrow> retrieve w query s = (Inl e, s0)"
  by (simp add: retrieve_def)

lemma retrieve_body_effect:
  assumes "(case cursor_execute w script sc of
              (Inl e, sc') \<Rightarrow> (Inl e, sc')
            | (Inr u, sc') \<Rightarrow> (Inr (f sc'), sc')) = (rb, sb)"
  shows "block_effect w sc rb sb"
proof -
  obtain r1 s1 where x: "cursor_execute w script sc = (r1, s1)"
    by (cases "cursor_execute w script sc")
  then have b: "block_effect w sc r1 s1" by (rule cursor_execute_effect)
  show ?thesis
  proof (cases r1)
    case (Inl e)
    with assms x have "rb = Inl e" and "sb = s1" by simp_all
    with b Inl show ?thesis by (simp add: block_effect_def)
  next
    case (Inr u)
    with assms x have "rb = Inr (f s1)" and "sb = s1" by auto
    with b show ?thesis by (simp add: block_effect_def)
  qed
qed

lemma retrieve_effect:
  assumes g: "text_embedding w 0 query s = (Inr qe, s0)"
      and i: "retrieve w query s = (r, s')"
  shows "store_op_effect w ''Error in retrieval query : '' s0 r s'"
proof (rule pooled_block_effect[where block = "\<lambda>c sg.
          (case register_error w of
             Some e \<Rightarrow> (Inl e, sg)
           | None \<Rightarrow>
               with_connection w c
                 (with_cursor w
                    (\<lambda>sc. case cursor_execute w [SelectOrderByDistanceLimit TABLE_NAME qe 5] sc of
                             (Inl e, sc') \<Rightarrow> (Inl e, sc')
                           | (Inr u, sc') \<Rightarrow>
                               (Inr (concat (fetchall w (db sc') TABLE_NAME qe 5)), sc'))) sg)"])
  show "(case getconn_result w of
        Inl e \<Rightarrow> (Inl (unbound_local ''connection''),
                  logger_error (''Error in retrieval query : '' @ exn_text e) s0)
      | Inr c \<Rightarrow>
          (case (case register_error w of
             Some e \<Rightarrow> (Inl e, getconn c s0)
           | None \<Rightarrow>
               with_connection w c
                 (with_cursor w
                    (\<lambda>sc. case cursor_execute w [SelectOrderByDistanceLimit TABLE_NAME qe 5] sc of
                             (Inl e, sc') \<Rightarrow> (Inl e, sc')
                           | (Inr u, sc') \<Rightarrow>
                               (Inr (concat (fetchall w (db sc') TABLE_NAME qe 5)), sc')))
                 (getconn c s0)) of
             (Inl e, s1) \<Rightarrow> (Inl e, putconn c (logger_error (''Error in retrieval query : '' @ exn_text e) s1))
           | (Inr x, s1) \<Rightarrow> (Inr x, putconn c s1))) = (r, s')"
    using g i by (simp add: retrieve_def)
next
  fix c r1 s1
  assume a: "(case register_error w of
             Some e \<Rightarrow> (Inl e, getconn c s0)
           | None \<Rightarrow>
               with_connection w c
                 (with_cursor w
                    (\<lambda>sc. case cursor_execute w [SelectOrderByDistanceLimit TABLE_NAME qe 5] sc of
                             (Inl e, sc') \<Rightarrow> (Inl e, sc')
                           | (Inr u, sc') \<Rightarrow>
                               (Inr (concat (fetchall w (db sc') TABLE_NAME qe 5)), sc')))
                 (getconn c s0)) = (r1, s1)"
  have "block_effect w (getconn c s0) r1 s1 \<and> (\<forall>e. r1 = Inl e \<longrightarrow> db s1 = db (getconn c s0))"
  proof (cases "register_error w")
    case (Some e)
    with a have r1: "r1 = Inl e" and s1: "s1 = getconn c s0" by simp_all
    have "block_effect w (getconn c s0) r1 s1"
    proof (rule block_effectI[where evs = "[]" and d = "db (getconn c s0)"])
      show "list_all quiet []" by simp
      show "s1 = (getconn c s0)\<lparr>db := db (getconn c s0), trace := trace (getconn c s0) @ []\<rparr>"
        using s1 by simp
      show "\<And>e'. r1 = Inl e' \<Longrightarrow> e' \<in> database_errors w"
        using r1 Some by (simp add: database_errors_def)
    qed
    with s1 show ?thesis by simp
  next
    case None
    with a have "with_connection w c
                 (with_cursor w
                    (\<lambda>sc. case cursor_execute w [SelectOrderByDistanceLimit TABLE_NAME qe 5] sc of
                             (Inl e, sc') \<Rightarrow> (Inl e, sc')
                           | (Inr u, sc') \<Rightarrow>
                               (Inr (concat (fetchall w (db sc') TABLE_NAME qe 5)), sc')))
                 (getconn c s0) = (r1, s1)" by simp
    then show ?thesis
    proof (rule with_connection_effect)
      fix rb sb
      assume "with_cursor w
                    (\<lambda>sc. case cursor_execute w [SelectOrderByDistanceLimit TABLE_NAME qe 5] sc of
                             (Inl e, sc') \<Rightarrow> (Inl e, sc')
                           | (Inr u, sc') \<Rightarrow>
                               (Inr (concat (fetchall w (db sc') TABLE_NAME qe 5)), sc'))
                 (getconn c s0) = (rb, sb)"
      then show "block_effect w (getconn c s0) rb sb"
        by (rule with_cursor_effect) (rule retrieve_body_effect)
    qed
  qed
  then show "block_effect w (getconn c s0) r1 s1 \<and> (\<forall>e. r1 = Inl e \<longrightarrow> db s1 = db s0)"
    by (simp add: db_getconn)
qed

lemma retrieve_pool:
  "borrowed (snd (retrieve w query s)) = borrowed s \<and>
   prefix (trace s) (trace (snd (retrieve w query s))) \<and>
   filter is_pool_call (new_events s (snd (retrieve w query s))) =
     (case fst (text_embedding w 0 query s) of Inl e \<Rightarrow> [] | Inr qe \<Rightarrow> pool_use w)"
proof -
  obtain r0 s0 where g: "text_embedding w 0 query s = (r0, s0)"
    by (cases "text_embedding w 0 query s")
  from text_embedding_state[OF g] have s0: "s0 = s\<lparr>trace := trace s @ [EmbedCall query]\<rparr>" .
  show ?thesis
  proof (cases r0)
    case (Inl e)
    with g have "retrieve w query s = (Inl e, s0)" by (simp add: retrieve_raised_early)
    moreover from s0 have "new_events s s0 = [EmbedCall query]" by (simp add: new_events_def)
    ultimately show ?thesis using g Inl s0 by simp
  next
    case (Inr qe)
    obtain r s' where i: "retrieve w query s = (r, s')" by (cases "retrieve w query s")
    from g Inr have "text_embedding w 0 query s = (Inr qe, s0)" by simp
    from store_op_effect_pool[OF retrieve_effect[OF this i]] obtain evs where
      b: "borrowed s' = borrowed s0" and t: "trace s' = trace s0 @ evs"
      and p: "filter is_pool_call evs = pool_use w" by blast
    from t s0 have t': "trace s' = trace s @ (EmbedCall query # evs)" by simp
    from drop_new_events[OF t'] p have "filter is_pool_call (new_events s s') = pool_use w"
      by simp
    with b s0 t' i g Inr show ?thesis by simp
  qed
qed

lemma retrieve_block_returned:
  assumes "with_connection w c
             (with_cursor w
                (\<lambda>sc. case cursor_execute w [SelectOrderByDistanceLimit t q k] sc of
                         (Inl e, sc') \<Rightarrow> (Inl e, sc')
                       | (Inr u, sc') \<Rightarrow> (Inr (concat (fetchall w (db sc') t q k)), sc'))) s1
           = (Inr res, s2)"
  shows "res = concat (fetchall w (db s1) t q k) \<and> tables (db s1) t \<noteq> None
         \<and> s2 = s1\<lparr>trace := trace s1 @ [Commit c]\<rparr>"
  using assms
  by (auto simp: with_connection_def with_cursor_def cursor_execute_def emit_def
      split: option.splits sum.splits prod.splits)

lemma retrieve_returned:
  assumes g: "text_embedding w 0 query s = (Inr qe, s0)"
      and i: "retrieve w query s = (Inr res, s')"
  shows "\<exists>c. getconn_result w = Inr c
           \<and> res = concat (fetchall w (db s) TABLE_NAME qe 5)
           \<and> tables (db s) TABLE_NAME \<noteq> None
           \<and> s' = s\<lparr>trace := trace s @ [EmbedCall query, Getconn c, Commit c, Putconn c]\<rparr>"
proof (cases "getconn_result w")
  case (Inl e)
  with g i show ?thesis by (simp add: retrieve_def)
next
  case (Inr c)
  from text_embedding_state[OF g] have s0: "s0 = s\<lparr>trace := trace s @ [EmbedCall query]\<rparr>" .
  show ?thesis
  proof (cases "register_error w")
    case (Some e)
    with g i Inr show ?thesis by (simp add: retrieve_def)
  next
    case None
    obtain r1 s1 where b: "with_connection w c
             (with_cursor w
                (\<lambda>sc. case cursor_execute w [SelectOrderByDistanceLimit TABLE_NAME qe 5] sc of
                         (Inl e, sc') \<Rightarrow> (Inl e, sc')
                       | (Inr u, sc') \<Rightarrow>
                           (Inr (concat (fetchall w (db sc') TABLE_NAME qe 5)), sc')))
             (getconn c s0) = (r1, s1)"
      by (cases "with_connection w c
             (with_cursor w
                (\<lambda>sc. case cursor_execute w [SelectOrderByDistanceLimit TABLE_NAME qe 5] sc of
                         (Inl e, sc') \<Rightarrow> (Inl e, sc')
                       | (Inr u, sc') \<Rightarrow>
                           (Inr (concat (fetchall w (db sc') TABLE_NAME qe 5)), sc')))
             (getconn c s0)")
    from g i Inr None b have r1: "r1 = Inr res" and s': "s' = putconn c s1"
      by (auto simp: retrieve_def split: sum.splits)
    from retrieve_block_returned[OF b[unfolded r1]]
    have "res = concat (fetchall w (db (getconn c s0)) TABLE_NAME qe 5)"
      and "tables (db (getconn c s0)) TABLE_NAME \<noteq> None"
      and "s1 = (getconn c s0)\<lparr>trace := trace (getconn c s0) @ [Commit c]\<rparr>"
      by simp_all
    with s' s0 Inr show ?thesis
      by (simp add: getconn_def putconn_def emit_def)
  qed
qed

lemma retrieve_chat_history:
  "chat_history (snd (retrieve w query s)) = chat_history s"
proof -
  obtain r0 s0 where g: "text_embedding w 0 query s = (r0, s0)"
    by (cases "text_embedding w 0 query s")
  from text_embedding_state[OF g] have s0: "chat_history s0 = chat_history s" by simp
  show ?thesis
  proof (cases r0)
    case (Inl e)
    with g s0 show ?thesis by (simp add: retrieve_raised_early)
  next
    case (Inr qe)
    obtain r s' where i: "retrieve w query s = (r, s')" by (cases "retrieve w query s")
    from g Inr have "text_embedding w 0 query s = (Inr qe, s0)" by simp
    from store_op_effect_pool[OF retrieve_effect[OF this i]] s0 i show ?thesis by simp
  qed
qed

lemma fetchall_length: "length (concat (fetchall w d t q k)) \<le> k"
proof (cases "tables d t")
  case None
  then show ?thesis by (simp add: fetchall_def)
next
  case (Some tb)
  have "length (concat (map (\<lambda>row. [fst row]) xs)) = length xs" for xs :: "(string \<times> 'a) list"
    by (induction xs) simp_all
  with Some show ?thesis by (simp add: fetchall_def)
qed

lemma take_sorted_nearest:
  fixes key :: "'a \<Rightarrow> 'k::linorder"
  assumes "mset ys = mset xs" and p: "picked = take k (sort_key key ys)"
  shows "length picked = min k (length xs)
       \<and> mset picked \<subseteq># mset xs
       \<and> sorted (map key picked)
       \<and> (\<forall>far \<in># mset xs - mset picked. \<forall>near \<in> set picked. key near \<le> key far)"
proof -
  define zs where "zs = sort_key key ys"
  have m: "mset zs = mset xs" using assms(1) by (simp add: zs_def)
  have s: "sorted (map key zs)" by (simp add: zs_def)
  have p: "picked = take k zs" by (simp add: p zs_def)
  from m have "length zs = length xs" by (rule mset_eq_length)
  then have 1: "length picked = min k (length xs)" by (simp add: p min.commute)
  have split: "mset xs = mset (take k zs) + mset (drop k zs)"
    using m by (metis append_take_drop_id mset_append)
  then have 2: "mset picked \<subseteq># mset xs" by (simp add: p)
  have e: "map key zs = map key (take k zs) @ map key (drop k zs)"
    by (metis append_take_drop_id map_append)
  have s2: "sorted (map key (take k zs) @ map key (drop k zs))"
    by (subst e[symmetric]) (rule s)
  then have 3: "sorted (map key picked)" by (simp add: p sorted_append)
  from split have "mset xs - mset picked = mset (drop k zs)" by (simp add: p)
  moreover from s2 have "\<forall>near \<in> set (take k zs). \<forall>far \<in> set (drop k zs). key near \<le> key far"
    by (auto simp: sorted_append)
  ultimately have 4: "\<forall>far \<in># mset xs - mset picked. \<forall>near \<in> set picked. key near \<le> key far"
    by (auto simp: p)
  from 1 2 3 4 show ?thesis by blast
qed

lemmas retrieve_unfold =
  retrieve_def text_embedding_def with_connection_def with_cursor_def cursor_execute_def
  fetchall_def getconn_def putconn_def emit_def Let_def

lemma retrieve_body_fst:
  "(case fst (with_cursor w
          (\<lambda>sc. case cursor_execute w script sc of
                   (Inl e, sc') \<Rightarrow> (Inl e, sc')
                 | (Inr u, sc') \<Rightarrow> (Inr (f sc'), sc')) s) of Inl e \<Rightarrow> Some e | Inr x \<Rightarrow> None) =
     statement_error w script (db s)"
  by (auto simp: with_cursor_def cursor_execute_def statement_error_def
      split: option.splits sum.splits)

lemma retrieve_fst:
  assumes "getconn_result w = Inr c" and "text_embedding w 0 query s = (Inr qe, s0)"
  shows "fst (retrieve w query s) =
           (case register_error w of
              Some e \<Rightarrow> Inl e
            | None \<Rightarrow>
                fst (with_connection w c
                       (with_cursor w
                          (\<lambda>sc. case cursor_execute w [SelectOrderByDistanceLimit TABLE_NAME qe 5] sc of
                                   (Inl e, sc') \<Rightarrow> (Inl e, sc')
                                 | (Inr u, sc') \<Rightarrow>
                                     (Inr (concat (fetchall w (db sc') TABLE_NAME qe 5)), sc')))
                       (getconn c s0)))"
  using assms by (simp add: retrieve_def frame_fst split: option.splits)

subsection \<open>An acquisition the pool refuses\<close>

lemma refused_acquisition:
  fixes w :: "('v, 'd::linorder) world"
  assumes "getconn_result w = Inl e"
  shows "create_table w s =
           (Inl (unbound_local ''connection''),
            s\<lparr>trace := trace s @ [LogInfo table_creation_query,
                                   LogError (''Error in create table query: '' @ exn_text e)]\<rparr>)"
    and "get_text_embedding_pairs w doc s = (Inr pairs, s0) \<Longrightarrow>
         ingest w doc s =
           (Inl (unbound_local ''connection''),
            s0\<lparr>trace := trace s0 @ [LogError (''Error in update table query : '' @ exn_text e)]\<rparr>)"
    and "text_embedding w 0 query s = (Inr qe, s1) \<Longrightarrow>
         retrieve w query s =
           (Inl (unbound_local ''connection''),
            s1\<lparr>trace := trace s1 @ [LogError (''Error in retrieval query : '' @ exn_text e)]\<rparr>)"
  using assms
  by (simp_all add: create_table_def ingest_def retrieve_def Let_def logger_info_def
        logger_error_def emit_def)

subsection \<open>The conversation turn\<close>

lemma strip_R: "strip ''R'' = ''R''"
  by (simp add: strip_def strip_left.simps py_whitespace_def)

lemma strip_demo: "strip ('' '' @ nl @ ''R  e '' @ nl) = ''R  e''"
  by (simp add: strip_def strip_left.simps py_whitespace_def nl_def)

lemma chat_history_emit: "chat_history (emit ev s) = chat_history s"
  by (simp add: emit_def)

lemma q1_retrieve:
  "fst (retrieve calm_world ''Q2'' (emit (Send m) q1_state)) = Inr [''b'', ''e'', ''g'', ''d'', ''c'']"
  by (simp add: retrieve_unfold calm_world_def q1_state_def seven_rows_state_def seven_rows_def)

lemma turn_raised_history:
  fixes w :: "('v, 'd::linorder) world"
  assumes "conversation_turn w query s = (Raised e, s')"
  shows "chat_history s' = chat_history s"
proof -
  define s1 where "s1 = emit (Send (prompt_template [] (str_join nl (chat_history s)))) s"
  have h1: "chat_history s1 = chat_history s" by (simp add: s1_def emit_def)
  obtain r2 s2 where r: "retrieve w query s1 = (r2, s2)" by (cases "retrieve w query s1")
  from retrieve_chat_history[of w query s1] r h1 have h2: "chat_history s2 = chat_history s"
    by simp
  from assms r h1 h2 show ?thesis
    by (auto simp: conversation_turn_def Let_def s1_def[symmetric] chat_history_emit
        split: if_splits sum.splits)
qed

section \<open>Claims\<close>

subsection \<open>C1: the context of the second message and the history\<close>

text \<open>
  C1, as the code has it. In a turn whose query is not \<^verbatim>\<open>quit\<close> and whose calls succeed, two
  messages are sent: the template with an empty query and the history joined by newlines,
  then the template with the query and a context that is the stripped first response
  directly followed by the retrieved chunks joined by newlines. Nothing separates the
  response from the first chunk: the loop has \<^verbatim>\<open>updated_context += '\n'.join(similar_chunks)\<close>.
  At most five chunks are retrieved, and the turn appends the query itself to the history.
\<close>

theorem turn_context_and_history:
  fixes w :: "('v, 'd::linorder) world"
  assumes "query \<noteq> ''quit''"
      and "refresh_reply w = Inr response_1"
      and "fst (retrieve w query
                  (emit (Send (prompt_template [] (str_join nl (chat_history s)))) s))
             = Inr similar_chunks"
      and "answer_reply w = Inr response_2"
  shows "fst (conversation_turn w query s) = Continue
       \<and> sent (new_events s (snd (conversation_turn w query s))) =
           [prompt_template [] (str_join nl (chat_history s)),
            prompt_template query (strip response_1 @ str_join nl similar_chunks)]
       \<and> chat_history (snd (conversation_turn w query s)) = chat_history s @ [query]
       \<and> length similar_chunks \<le> 5"
proof -
  define s1 where "s1 = emit (Send (prompt_template [] (str_join nl (chat_history s)))) s"
  obtain s2 where r: "retrieve w query s1 = (Inr similar_chunks, s2)"
    using assms(3) unfolding s1_def[symmetric] by (cases "retrieve w query s1") simp
  obtain r0 s0 where g: "text_embedding w 0 query s1 = (r0, s0)"
    by (cases "text_embedding w 0 query s1")
  from g r obtain qe where "r0 = Inr qe"
    by (cases r0) (simp_all add: retrieve_raised_early)
  with g have g': "text_embedding w 0 query s1 = (Inr qe, s0)" by simp
  from retrieve_returned[OF g' r] obtain c where
    chunks: "similar_chunks = concat (fetchall w (db s1) TABLE_NAME qe 5)"
    and s2: "s2 = s1\<lparr>trace := trace s1 @ [EmbedCall query, Getconn c, Commit c, Putconn c]\<rparr>"
    by blast
  from chunks have 4: "length similar_chunks \<le> 5" by (simp add: fetchall_length)
  from assms(1,2,4) r have t: "conversation_turn w query s =
      (Continue,
       (emit (Print (''Model : '' @ strip response_2 @ nl @ nl))
          (emit (Send (prompt_template query (strip response_1 @ str_join nl similar_chunks))) s2))
       \<lparr>chat_history := chat_history s2 @ [query]\<rparr>)"
    by (simp add: conversation_turn_def Let_def s1_def emit_def)
  from t s2 have "fst (conversation_turn w query s) = Continue"
    and "chat_history (snd (conversation_turn w query s)) = chat_history s @ [query]"
    and "sent (new_events s (snd (conversation_turn w query s))) =
           [prompt_template [] (str_join nl (chat_history s)),
            prompt_template query (strip response_1 @ str_join nl similar_chunks)]"
    by (simp_all add: s1_def emit_def new_events_def)
  with 4 show ?thesis by simp
qed

text \<open>
  An instance: history \<^verbatim>\<open>["Q1"]\<close>, query \<^verbatim>\<open>"Q2"\<close>, first response \<^verbatim>\<open>"R"\<close>.
\<close>

theorem turn_context_and_history_witness:
  "fst (conversation_turn calm_world ''Q2'' q1_state) = Continue
   \<and> sent (new_events q1_state (snd (conversation_turn calm_world ''Q2'' q1_state))) =
       [prompt_template [] ''Q1'',
        prompt_template ''Q2'' (''R'' @ str_join nl [''b'', ''e'', ''g'', ''d'', ''c''])]
   \<and> chat_history (snd (conversation_turn calm_world ''Q2'' q1_state)) = [''Q1'', ''Q2'']"
proof -
  have 1: "''Q2'' \<noteq> ''quit''" by simp
  have 2: "refresh_reply calm_world = Inr ''R''" by (simp add: calm_world_def)
  have 4: "answer_reply calm_world = Inr ''A''" by (simp add: calm_world_def)
  have h: "chat_history q1_state = [''Q1'']" by (simp add: q1_state_def)
  from turn_context_and_history[OF 1 2 q1_retrieve 4] h strip_R
  show ?thesis by simp
qed

text \<open>
  The claim as stated puts a newline between the refreshed context and the first chunk.
  In the instance above the context sent starts with \<^verbatim>\<open>Rb\<close>.
\<close>

theorem turn_context_counterexample:
  "sent (new_events q1_state (snd (conversation_turn calm_world ''Q2'' q1_state))) =
     [prompt_template [] ''Q1'',
      prompt_template ''Q2'' (''Rb'' @ nl @ ''e'' @ nl @ ''g'' @ nl @ ''d'' @ nl @ ''c'')]
   \<and> spec_answer_context ''R'' [''b'', ''e'', ''g'', ''d'', ''c'']
       = ''R'' @ nl @ ''b'' @ nl @ ''e'' @ nl @ ''g'' @ nl @ ''d'' @ nl @ ''c''
   \<and> sent (new_events q1_state (snd (conversation_turn calm_world ''Q2'' q1_state))) ! 1
       \<noteq> prompt_template ''Q2'' (spec_answer_context ''R'' [''b'', ''e'', ''g'', ''d'', ''c''])"
  by (simp add: conversation_turn_def retrieve_unfold calm_world_def q1_state_def
        seven_rows_state_def seven_rows_def new_events_def strip_R spec_answer_context_def
        prompt_template_def nl_def)

subsection \<open>C2: an exhausted pool\<close>

text \<open>
  C2, as the code has it. The pool is created with the bounds 1 and 10. The methods call
  \<^verbatim>\<open>getconn\<close> once and neither wait nor try again: in a state in which ten connections are
  borrowed, where a \<^verbatim>\<open>SimpleConnectionPool\<close> answers \<^verbatim>\<open>getconn\<close> with \<^verbatim>\<open>PoolError\<close>,
  \<^verbatim>\<open>_create_table\<close>, \<^verbatim>\<open>ingest\<close> (once its pairs are computed) and \<^verbatim>\<open>retrieve\<close> (once the
  query is embedded) end at once with an exception. The error of the pool is logged, no
  other event follows, and the borrowed connections and the database are as before. (What
  reaches the caller there is the \<^verbatim>\<open>UnboundLocalError\<close> of the \<^verbatim>\<open>finally\<close> clause.)
\<close>

theorem exhausted_pool_fails_at_once:
  fixes w :: "('v, 'd::linorder) world"
  assumes "pool_maxconn \<le> length (borrowed s)" and "answers_as_pool w s"
  shows "create_table w s =
           (Inl (unbound_local ''connection''),
            s\<lparr>trace := trace s @ [LogInfo table_creation_query,
                 LogError (''Error in create table query: '' @ exn_text pool_exhausted)]\<rparr>)
       \<and> (get_text_embedding_pairs w doc s = (Inr pairs, s0) \<longrightarrow>
          ingest w doc s =
            (Inl (unbound_local ''connection''),
             s0\<lparr>trace := trace s0
                  @ [LogError (''Error in update table query : '' @ exn_text pool_exhausted)]\<rparr>))
       \<and> (text_embedding w 0 query s = (Inr qe, s1) \<longrightarrow>
          retrieve w query s =
            (Inl (unbound_local ''connection''),
             s1\<lparr>trace := trace s1
                  @ [LogError (''Error in retrieval query : '' @ exn_text pool_exhausted)]\<rparr>))
       \<and> pool_minconn = 1 \<and> pool_maxconn = 10"
proof -
  from assms have "getconn_result w = Inl pool_exhausted"
    by (simp add: answers_as_pool_def)
  from refused_acquisition[OF this] show ?thesis
    by (simp add: pool_minconn_def pool_maxconn_def)
qed

text \<open>
  An instance: ten connections are borrowed when the table is to be created.
\<close>

theorem exhausted_pool_fails_at_once_witness:
  "create_table exhausted_world saturated_state =
     (Inl (Exn ''UnboundLocalError''
             ''cannot access local variable 'connection' where it is not associated with a value''),
      saturated_state\<lparr>trace := [LogInfo table_creation_query,
         LogError ''Error in create table query: connection pool exhausted'']\<rparr>)"
proof -
  have 1: "pool_maxconn \<le> length (borrowed saturated_state)"
    by (simp add: saturated_state_def)
  have 2: "answers_as_pool exhausted_world saturated_state"
    by (simp add: answers_as_pool_def saturated_state_def exhausted_world_def)
  from exhausted_pool_fails_at_once[OF 1 2, THEN conjunct1]
  show ?thesis
    by (simp add: pool_exhausted_def unbound_local_def saturated_state_def stocked_state_def)
qed

text \<open>
  The claim as stated has the caller wait until a connection is returned, and never fail
  at once. With ten connections borrowed and a pool that refuses the eleventh, each of the
  three methods raises, without a call that borrows or returns a connection.
\<close>

theorem blocking_acquire_counterexample:
  "length (borrowed saturated_state) = pool_maxconn
   \<and> getconn_result exhausted_world = Inl pool_exhausted
   \<and> fst (create_table exhausted_world saturated_state) = Inl (unbound_local ''connection'')
   \<and> fst (ingest exhausted_world ''doc'' saturated_state) = Inl (unbound_local ''connection'')
   \<and> fst (retrieve exhausted_world ''q'' saturated_state) = Inl (unbound_local ''connection'')
   \<and> filter is_pool_call (trace (snd (retrieve exhausted_world ''q'' saturated_state))) = []
   \<and> borrowed (snd (retrieve exhausted_world ''q'' saturated_state)) = borrowed saturated_state"
  by (simp add: saturated_state_def stocked_state_def exhausted_world_def calm_world_def
        create_table_def ingest_def retrieve_def get_text_embedding_pairs_def
        split_input_to_chunks_def text_embedding_def Let_def logger_info_def logger_error_def
        emit_def)

subsection \<open>C3: the order of the retrieved chunks\<close>

text \<open>
  C3, as the code has it. When \<^verbatim>\<open>retrieve\<close> returns and the executor delivers every stored row
  once, the result is the texts of \<open>min 5 n\<close> of the \<open>n\<close> stored rows, in ascending order of
  distance to the embedding of the query, and no row left out is closer than a row
  returned. The order among rows at the same distance is the executor's: the query sorts
  by distance only.
\<close>

theorem retrieve_nearest_first:
  fixes w :: "('v, 'd::linorder) world"
  assumes "retrieve w query s = (Inr res, s')"
      and "fst (text_embedding w 0 query s) = Inr qe"
      and "tables (db s) TABLE_NAME = Some tb"
      and "mset (row_order w (rows tb)) = mset (rows tb)"
  shows "\<exists>picked.
           res = map fst picked
         \<and> length picked = min 5 (length (rows tb))
         \<and> mset picked \<subseteq># mset (rows tb)
         \<and> sorted (map (\<lambda>row. distance w (snd row) qe) picked)
         \<and> (\<forall>far \<in># mset (rows tb) - mset picked. \<forall>near \<in> set picked.
               distance w (snd near) qe \<le> distance w (snd far) qe)"
proof -
  define picked where
    "picked = take 5 (sort_key (\<lambda>row. distance w (snd row) qe) (row_order w (rows tb)))"
  obtain s0 where g: "text_embedding w 0 query s = (Inr qe, s0)"
    using assms(2) by (cases "text_embedding w 0 query s") simp
  from retrieve_returned[OF g assms(1)] assms(3)
  have "res = concat (map (\<lambda>row. [fst row]) picked)"
    by (auto simp: fetchall_def picked_def)
  also have "\<dots> = map fst picked" by (induction picked) simp_all
  finally have "res = map fst picked" .
  with take_sorted_nearest[OF assms(4) picked_def] show ?thesis by blast
qed

text \<open>
  An instance: of seven rows the five nearest come back, nearest first.
\<close>

theorem retrieve_nearest_first_witness:
  "fst (retrieve calm_world ''q'' seven_rows_state) = Inr [''e'', ''b'', ''g'', ''d'', ''c'']
   \<and> (\<exists>picked.
         [''e'', ''b'', ''g'', ''d'', ''c''] = map fst picked
       \<and> length picked = 5
       \<and> mset picked \<subseteq># mset (rows seven_rows)
       \<and> sorted (map (\<lambda>row. distance calm_world (snd row) 1) picked))"
proof -
  have r: "fst (retrieve calm_world ''q'' seven_rows_state) = Inr [''e'', ''b'', ''g'', ''d'', ''c'']"
    by (simp add: retrieve_unfold calm_world_def seven_rows_state_def seven_rows_def)
  then obtain s' where 1:
    "retrieve calm_world ''q'' seven_rows_state = (Inr [''e'', ''b'', ''g'', ''d'', ''c''], s')"
    by (cases "retrieve calm_world ''q'' seven_rows_state") simp
  have 2: "fst (text_embedding calm_world 0 ''q'' seven_rows_state) = Inr 1"
    by (simp add: text_embedding_def calm_world_def Let_def)
  have 3: "tables (db seven_rows_state) TABLE_NAME = Some seven_rows"
    by (simp add: seven_rows_state_def)
  have 4: "mset (row_order calm_world (rows seven_rows)) = mset (rows seven_rows)"
    by (simp add: calm_world_def)
  from retrieve_nearest_first[OF 1 2 3 4] obtain picked where
    p: "[''e'', ''b'', ''g'', ''d'', ''c''] = map fst picked
      \<and> length picked = min 5 (length (rows seven_rows))
      \<and> mset picked \<subseteq># mset (rows seven_rows)
      \<and> sorted (map (\<lambda>row. distance calm_world (snd row) 1) picked)
      \<and> (\<forall>far \<in># mset (rows seven_rows) - mset picked. \<forall>near \<in> set picked.
               distance calm_world (snd near) 1 \<le> distance calm_world (snd far) 1)" ..
  note p1 = p[THEN conjunct1]
    and p2 = p[THEN conjunct2, THEN conjunct1]
    and p3 = p[THEN conjunct2, THEN conjunct2, THEN conjunct1]
    and p4 = p[THEN conjunct2, THEN conjunct2, THEN conjunct2, THEN conjunct1]
  from p2 have "length picked = 5" by (simp add: seven_rows_def)
  with p1 p3 p4 have "[''e'', ''b'', ''g'', ''d'', ''c''] = map fst picked
       \<and> length picked = 5
       \<and> mset picked \<subseteq># mset (rows seven_rows)
       \<and> sorted (map (\<lambda>row. distance calm_world (snd row) 1) picked)"
    by (intro conjI)
  then have "\<exists>picked. [''e'', ''b'', ''g'', ''d'', ''c''] = map fst picked
       \<and> length picked = 5
       \<and> mset picked \<subseteq># mset (rows seven_rows)
       \<and> sorted (map (\<lambda>row. distance calm_world (snd row) 1) picked)" ..
  with r show ?thesis by (intro conjI)
qed

text \<open>
  The claim as stated asks for the earlier inserted of two rows at equal distance first.
  With an executor that delivers the later row first, \<^verbatim>\<open>retrieve\<close> returns it first.
\<close>

theorem retrieve_tie_order_counterexample:
  "fst (retrieve reversing_world ''q'' tied_state) = Inr [''second'', ''first'']
   \<and> spec_stable_ranking reversing_world tied_table 1 = [''first'', ''second'']
   \<and> fst (retrieve reversing_world ''q'' tied_state)
       \<noteq> Inr (spec_stable_ranking reversing_world tied_table 1)
   \<and> fst (text_embedding reversing_world 0 ''q'' tied_state) = Inr 1
   \<and> tables (db tied_state) TABLE_NAME = Some tied_table
   \<and> mset (row_order reversing_world (rows tied_table)) = mset (rows tied_table)"
  by (simp add: retrieve_unfold spec_stable_ranking_def reversing_world_def calm_world_def
        tied_state_def tied_table_def)

subsection \<open>C4: the borrowed connection is returned exactly once\<close>

text \<open>
  C4. For every world and every state, \<^verbatim>\<open>_create_table\<close>, \<^verbatim>\<open>ingest\<close> and \<^verbatim>\<open>retrieve\<close> leave
  the set of borrowed connections as they found it, whether they return or raise, and
  their calls to the pool are exactly one \<^verbatim>\<open>getconn\<close> followed by one \<^verbatim>\<open>putconn\<close> of the
  connection it handed out. No connection is handed out and none is put back when
  \<^verbatim>\<open>getconn\<close> itself raises, or when the embedding step of \<^verbatim>\<open>ingest\<close> or \<^verbatim>\<open>retrieve\<close> raises
  before the \<^verbatim>\<open>try\<close> statement is reached. (\<^verbatim>\<open>putconn\<close> of a connection that the same open
  pool handed out is taken to return.)
\<close>

theorem pooled_connection_returned_exactly_once:
  "(borrowed (snd (create_table w s)) = borrowed s \<and>
    prefix (trace s) (trace (snd (create_table w s))) \<and>
    filter is_pool_call (new_events s (snd (create_table w s))) = pool_use w)
   \<and>
   (borrowed (snd (ingest w txt s)) = borrowed s \<and>
    prefix (trace s) (trace (snd (ingest w txt s))) \<and>
    filter is_pool_call (new_events s (snd (ingest w txt s))) =
      (case fst (get_text_embedding_pairs w txt s) of Inl e \<Rightarrow> [] | Inr pairs \<Rightarrow> pool_use w))
   \<and>
   (borrowed (snd (retrieve w query s)) = borrowed s \<and>
    prefix (trace s) (trace (snd (retrieve w query s))) \<and>
    filter is_pool_call (new_events s (snd (retrieve w query s))) =
      (case fst (text_embedding w 0 query s) of Inl e \<Rightarrow> [] | Inr qe \<Rightarrow> pool_use w))"
  using create_table_pool[of w s] ingest_pool[of w "txt" s] retrieve_pool[of w query s]
  by blast

text \<open>
  An instance: the server refuses the insert; the exception reaches the caller after the
  connection was put back.
\<close>

theorem pooled_connection_returned_exactly_once_witness:
  "borrowed (snd (ingest refusing_world ''doc'' fresh_state)) = [] \<and>
   filter is_pool_call (new_events fresh_state (snd (ingest refusing_world ''doc'' fresh_state)))
     = [Getconn 0, Putconn 0] \<and>
   fst (ingest refusing_world ''doc'' fresh_state) = Inl connection_lost"
proof -
  have "fst (ingest refusing_world ''doc'' fresh_state) = Inl connection_lost"
    by (simp add: ingest_def get_text_embedding_pairs_def split_input_to_chunks_def
          text_embedding_def refusing_world_def calm_world_def with_connection_def
          with_cursor_def execute_values_def cursor_execute_def paginate.simps Let_def)
  moreover have "pool_use refusing_world = [Getconn 0, Putconn 0]"
    by (simp add: pool_use_def refusing_world_def calm_world_def)
  moreover have "borrowed fresh_state = []"
    by (simp add: fresh_state_def)
  ultimately show ?thesis
    using pooled_connection_returned_exactly_once[of refusing_world fresh_state "''doc''" "''q''"]
    by (simp add: refusing_world_def calm_pairs)
qed

subsection \<open>C5: ingest is all or nothing\<close>



subsection \<open>C6: what a database error looks like to the caller\<close>

text \<open>
  C6, as the code has it. Let the connection be acquired, the embedding step of \<^verbatim>\<open>ingest\<close>
  or \<^verbatim>\<open>retrieve\<close> having returned. Whichever call to the database fails first,
  \<^verbatim>\<open>register_vector\<close> in \<^verbatim>\<open>retrieve\<close>, \<^verbatim>\<open>cursor()\<close>, a statement of the query or the commit,
  the method raises, and the exception \<open>e\<close> that reaches the caller is the one that reached
  the \<^verbatim>\<open>except\<close> clause: the exception of the failing call itself or, when the rollback on
  leaving \<^verbatim>\<open>with connection\<close> raises as well, the exception of the rollback in its place.
  The \<^verbatim>\<open>except\<close> clause re-raises it unchanged with a bare \<^verbatim>\<open>raise\<close> (the notebook defines no
  exception class of its own). The trace is extended, and the last two events are the error
  log line, made of the name of the failing query and the text of \<open>e\<close>, and the return of
  the connection.
\<close>

theorem database_error_logged_and_reraised:
  fixes w :: "('v, 'd::linorder) world"
  assumes "getconn_result w = Inr c"
  shows "((statement_error w table_creation_script (db s) = Some e \<and> rollback_error w = None
          \<or> statement_error w table_creation_script (db s) = Some e0 \<and> rollback_error w = Some e
          \<or> statement_error w table_creation_script (db s) = None \<and> commit_error w = Some e)
          \<longrightarrow> raised_and_logged (create_table w s) s ''Error in create table query: '' c e)
       \<and> (fst (get_text_embedding_pairs w doc s) = Inr pairs \<longrightarrow>
          (statement_error w (ingest_script pairs) (db s) = Some e \<and> rollback_error w = None
          \<or> statement_error w (ingest_script pairs) (db s) = Some e0 \<and> rollback_error w = Some e
          \<or> statement_error w (ingest_script pairs) (db s) = None \<and> commit_error w = Some e)
          \<longrightarrow> raised_and_logged (ingest w doc s) s ''Error in update table query : '' c e)
       \<and> (fst (text_embedding w 0 query s) = Inr qe \<longrightarrow>
          (register_error w = Some e
          \<or> register_error w = None
            \<and> (statement_error w (retrieval_script qe) (db s) = Some e \<and> rollback_error w = None
              \<or> statement_error w (retrieval_script qe) (db s) = Some e0 \<and> rollback_error w = Some e
              \<or> statement_error w (retrieval_script qe) (db s) = None \<and> commit_error w = Some e))
          \<longrightarrow> raised_and_logged (retrieve w query s) s ''Error in retrieval query : '' c e)"
proof (intro conjI impI)
  assume a: "statement_error w table_creation_script (db s) = Some e \<and> rollback_error w = None
          \<or> statement_error w table_creation_script (db s) = Some e0 \<and> rollback_error w = Some e
          \<or> statement_error w table_creation_script (db s) = None \<and> commit_error w = Some e"
  define s0 where "s0 = logger_info table_creation_query s"
  have d: "db (getconn c s0) = db s" by (simp add: s0_def getconn_def logger_info_def emit_def)
  from a have "fst (create_table w s) = Inl e"
    by (auto simp: create_table_fst[OF assms] with_connection_fst cursor_block_fst
          s0_def[symmetric] d)
  moreover have "trace s0 = trace s @ [LogInfo table_creation_query]"
    by (simp add: s0_def logger_info_def emit_def)
  moreover have "store_op_effect w ''Error in create table query: '' s0
                   (fst (create_table w s)) (snd (create_table w s))"
    unfolding s0_def by (rule create_table_effect) simp
  ultimately show "raised_and_logged (create_table w s) s ''Error in create table query: '' c e"
    using assms by (intro store_op_raised_and_logged)
next
  assume g: "fst (get_text_embedding_pairs w doc s) = Inr pairs"
    and a: "statement_error w (ingest_script pairs) (db s) = Some e \<and> rollback_error w = None
          \<or> statement_error w (ingest_script pairs) (db s) = Some e0 \<and> rollback_error w = Some e
          \<or> statement_error w (ingest_script pairs) (db s) = None \<and> commit_error w = Some e"
  from g obtain s0 where g': "get_text_embedding_pairs w doc s = (Inr pairs, s0)"
    by (cases "get_text_embedding_pairs w doc s") simp
  from get_text_embedding_pairs_state[OF g'] obtain evs0 where
    s0: "s0 = s\<lparr>trace := trace s @ evs0\<rparr>" by auto
  then have d: "db (getconn c s0) = db s" and t: "trace s0 = trace s @ evs0"
    by (simp_all add: getconn_def emit_def)
  from a have "fst (ingest w doc s) = Inl e"
    by (auto simp: ingest_fst[OF assms g'] with_connection_fst ingest_body_fst d
          ingest_script_def)
  moreover have "store_op_effect w ''Error in update table query : '' s0
                   (fst (ingest w doc s)) (snd (ingest w doc s))"
    by (rule ingest_effect[OF g']) simp
  ultimately show "raised_and_logged (ingest w doc s) s ''Error in update table query : '' c e"
    using assms t by (intro store_op_raised_and_logged)
next
  assume g: "fst (text_embedding w 0 query s) = Inr qe"
    and a: "register_error w = Some e
          \<or> register_error w = None
            \<and> (statement_error w (retrieval_script qe) (db s) = Some e \<and> rollback_error w = None
              \<or> statement_error w (retrieval_script qe) (db s) = Some e0 \<and> rollback_error w = Some e
              \<or> statement_error w (retrieval_script qe) (db s) = None \<and> commit_error w = Some e)"
  from g obtain s0 where g': "text_embedding w 0 query s = (Inr qe, s0)"
    by (cases "text_embedding w 0 query s") simp
  from text_embedding_state[OF g'] have s0: "s0 = s\<lparr>trace := trace s @ [EmbedCall query]\<rparr>" .
  then have d: "db (getconn c s0) = db s" and t: "trace s0 = trace s @ [EmbedCall query]"
    by (simp_all add: getconn_def emit_def)
  have "(case fst (with_cursor w
                (\<lambda>sc. case cursor_execute w [SelectOrderByDistanceLimit TABLE_NAME qe 5] sc of
                         (Inl e, sc') \<Rightarrow> (Inl e, sc')
                       | (Inr u, sc') \<Rightarrow>
                           (Inr (concat (fetchall w (db sc') TABLE_NAME qe 5)), sc'))
                (getconn c s0)) of Inl e \<Rightarrow> Some e | Inr x \<Rightarrow> None)
        = statement_error w (retrieval_script qe) (db s)"
    using retrieve_body_fst[where w = w and s = "getconn c s0"
        and script = "[SelectOrderByDistanceLimit TABLE_NAME qe 5]"
        and f = "\<lambda>sc'. concat (fetchall w (db sc') TABLE_NAME qe 5)"] d
    by (simp add: retrieval_script_def)
  note b = this
  from a b have "fst (retrieve w query s) = Inl e"
    by (auto simp: retrieve_fst[OF assms g'] with_connection_fst split: sum.splits)
  moreover have "store_op_effect w ''Error in retrieval query : '' s0
                   (fst (retrieve w query s)) (snd (retrieve w query s))"
    by (rule retrieve_effect[OF g']) simp
  ultimately show "raised_and_logged (retrieve w query s) s ''Error in retrieval query : '' c e"
    using assms t by (intro store_op_raised_and_logged)
qed

text \<open>
  Two instances: the server refuses the insert of \<^verbatim>\<open>ingest\<close>; and the same with a rollback
  that raises, whose exception is the one logged and raised.
\<close>

theorem database_error_logged_and_reraised_witness:
  "fst (ingest refusing_world ''doc'' stocked_state) = Inl connection_lost
   \<and> suffix [LogError ''Error in update table query : server closed the connection unexpectedly'',
              Putconn 0]
        (trace (snd (ingest refusing_world ''doc'' stocked_state)))
   \<and> fst (ingest lost_world ''doc'' stocked_state) = Inl connection_closed
   \<and> suffix [LogError ''Error in update table query : connection already closed'', Putconn 0]
        (trace (snd (ingest lost_world ''doc'' stocked_state)))"
proof -
  let ?pairs = "[\<lparr>te_text = ''doc'', te_embedding = 3::int\<rparr>]"
  have 1: "getconn_result refusing_world = Inr 0" "getconn_result lost_world = Inr 0"
    by (simp_all add: lost_world_def refusing_world_def calm_world_def)
  have 2: "fst (get_text_embedding_pairs refusing_world ''doc'' stocked_state) = Inr ?pairs"
    "fst (get_text_embedding_pairs lost_world ''doc'' stocked_state) = Inr ?pairs"
    by (simp_all add: get_text_embedding_pairs_def split_input_to_chunks_def text_embedding_def
          lost_world_def refusing_world_def calm_world_def Let_def)
  have 3: "statement_error refusing_world (ingest_script ?pairs) (db stocked_state)
             = Some connection_lost \<and> rollback_error refusing_world = None
         \<or> statement_error refusing_world (ingest_script ?pairs) (db stocked_state)
             = Some connection_lost \<and> rollback_error refusing_world = Some connection_lost
         \<or> statement_error refusing_world (ingest_script ?pairs) (db stocked_state) = None
           \<and> commit_error refusing_world = Some connection_lost"
    by (simp add: statement_error_def ingest_script_def paginate.simps refusing_world_def
          calm_world_def)
  have 4: "statement_error lost_world (ingest_script ?pairs) (db stocked_state)
             = Some connection_closed \<and> rollback_error lost_world = None
         \<or> statement_error lost_world (ingest_script ?pairs) (db stocked_state)
             = Some connection_lost \<and> rollback_error lost_world = Some connection_closed
         \<or> statement_error lost_world (ingest_script ?pairs) (db stocked_state) = None
           \<and> commit_error lost_world = Some connection_closed"
    by (simp add: statement_error_def ingest_script_def paginate.simps lost_world_def
          refusing_world_def calm_world_def)
  have t: "new_events stocked_state s' = trace s'" for s' :: "int state"
    by (simp add: new_events_def stocked_state_def)
  note refused = database_error_logged_and_reraised[OF 1(1),
      where s = stocked_state and doc = "''doc''" and pairs = ?pairs
        and e = connection_lost and ?e0.0 = connection_lost,
      THEN conjunct2, THEN conjunct1, rule_format, OF 2(1) 3]
  note lost = database_error_logged_and_reraised[OF 1(2),
      where s = stocked_state and doc = "''doc''" and pairs = ?pairs
        and e = connection_closed and ?e0.0 = connection_lost,
      THEN conjunct2, THEN conjunct1, rule_format, OF 2(2) 4]
  from refused lost show ?thesis
    by (simp add: raised_and_logged_def t connection_lost_def connection_closed_def)
qed

text \<open>
  The claim as stated has a \<^verbatim>\<open>StoreOperationError\<close> reach the caller. In the instance above
  the caller gets the \<^verbatim>\<open>OperationalError\<close> of the driver.
\<close>

theorem raw_exception_counterexample:
  "fst (ingest refusing_world ''doc'' stocked_state) = Inl connection_lost
   \<and> exn_class connection_lost = ''OperationalError''
   \<and> exn_class connection_lost \<noteq> ''StoreOperationError''"
  by (simp add: refused_ingest connection_lost_def)

subsection \<open>C7: a turn that fails\<close>

text \<open>
  C7, as the code has it. The loop has no \<^verbatim>\<open>try\<close>. When the first chat call, the retrieval
  or the second chat call of a turn raises \<open>e\<close>, the exception leaves the loop: the session
  ends with \<open>e\<close> in the state the turn had reached, whatever lines would follow, and no
  further line is read. The history is the one before the turn: the query is appended
  only at the end of a turn that succeeds.
\<close>

theorem failed_turn_ends_session:
  fixes w :: "('v, 'd::linorder) world"
  assumes "query \<noteq> ''quit''"
      and "refresh_reply w = Inl e
           \<or> (\<exists>response_1. refresh_reply w = Inr response_1)
              \<and> fst (retrieve w query
                        (emit (Send (prompt_template [] (str_join nl (chat_history s)))) s))
                  = Inl e
           \<or> (\<exists>response_1. refresh_reply w = Inr response_1)
              \<and> (\<exists>similar_chunks.
                    fst (retrieve w query
                          (emit (Send (prompt_template [] (str_join nl (chat_history s)))) s))
                    = Inr similar_chunks)
              \<and> answer_reply w = Inl e"
  shows "fst (conversation ((w, query) # rest) s) = Crashed e
       \<and> snd (conversation ((w, query) # rest) s) = snd (conversation_turn w query s)
       \<and> chat_history (snd (conversation ((w, query) # rest) s)) = chat_history s"
proof -
  define s1 where "s1 = emit (Send (prompt_template [] (str_join nl (chat_history s)))) s"
  obtain r2 s2 where r: "retrieve w query s1 = (r2, s2)" by (cases "retrieve w query s1")
  from assms r have "\<exists>s'. conversation_turn w query s = (Raised e, s')"
    by (auto simp: conversation_turn_def Let_def s1_def[symmetric])
  then obtain s' where t: "conversation_turn w query s = (Raised e, s')" ..
  from turn_raised_history[OF t] t show ?thesis by simp
qed

text \<open>
  An instance: the retrieval of the first of two lines fails.
\<close>

theorem failed_turn_ends_session_witness:
  "fst (conversation two_lines q1_state) = Crashed connection_lost
   \<and> chat_history (snd (conversation two_lines q1_state)) = [''Q1'']"
proof -
  have 1: "''Q2'' \<noteq> ''quit''" by simp
  have 2: "refresh_reply refusing_world = Inl connection_lost
           \<or> (\<exists>response_1. refresh_reply refusing_world = Inr response_1)
              \<and> fst (retrieve refusing_world ''Q2''
                        (emit (Send (prompt_template [] (str_join nl (chat_history q1_state)))) q1_state))
                  = Inl connection_lost
           \<or> (\<exists>response_1. refresh_reply refusing_world = Inr response_1)
              \<and> (\<exists>similar_chunks.
                    fst (retrieve refusing_world ''Q2''
                          (emit (Send (prompt_template [] (str_join nl (chat_history q1_state)))) q1_state))
                    = Inr similar_chunks)
              \<and> answer_reply refusing_world = Inl connection_lost"
    by (simp add: retrieve_unfold refusing_world_def calm_world_def q1_state_def
          seven_rows_state_def)
  note ends = failed_turn_ends_session[OF 1 2, of "[(calm_world, ''Q3'')]"]
  have h: "chat_history q1_state = [''Q1'']" by (simp add: q1_state_def)
  from ends[THEN conjunct1] ends[THEN conjunct2, THEN conjunct2] h
  show ?thesis by (simp add: two_lines_def del: conversation.simps)
qed

text \<open>
  The claim as stated has the loop go on to the next query. In the instance above the
  session ends with the exception of the first line, and the only message ever sent is the
  first message of that line; the second line on its own would have been answered.
\<close>

theorem session_survives_counterexample:
  "fst (conversation two_lines q1_state) = Crashed connection_lost
   \<and> sent (trace (snd (conversation two_lines q1_state))) = [prompt_template [] ''Q1'']
   \<and> fst (conversation (tl two_lines) q1_state) = AwaitingInput
   \<and> fst (conversation two_lines q1_state) \<noteq> AwaitingInput"
  by (simp add: two_lines_def conversation_turn_def retrieve_unfold refusing_world_def
        calm_world_def q1_state_def seven_rows_state_def seven_rows_def logger_error_def)

subsection \<open>C9: creating the table twice\<close>

text \<open>
  C9. When nothing outside the notebook fails, \<^verbatim>\<open>_create_table\<close> returns from any state,
  also from the state a first call has left, so a second call in succession does not
  raise. Each of the two calls logs the query, borrows a connection, commits one
  transaction and puts the connection back, and does nothing else that is observed. After
  the second call the extension is enabled, the table is present with the columns
  \<^verbatim>\<open>id SERIAL PRIMARY KEY\<close>, \<^verbatim>\<open>text_chunk\<close>, \<^verbatim>\<open>embedding\<close> and no rows, and the committed
  database is the one the first call left.
\<close>

theorem create_table_twice:
  assumes "accepts_table_creation w1" and "accepts_table_creation w2"
      and "getconn_result w1 = Inr c1" and "getconn_result w2 = Inr c2"
  shows "fst (create_table w1 s) = Inr ()
       \<and> fst (create_table w2 (snd (create_table w1 s))) = Inr ()
       \<and> new_events s (snd (create_table w1 s))
           = [LogInfo table_creation_query, Getconn c1, Commit c1, Putconn c1]
       \<and> new_events (snd (create_table w1 s)) (snd (create_table w2 (snd (create_table w1 s))))
           = [LogInfo table_creation_query, Getconn c2, Commit c2, Putconn c2]
       \<and> tables (db (snd (create_table w2 (snd (create_table w1 s))))) TABLE_NAME =
           Some \<lparr>columns = (''id'', ''SERIAL PRIMARY KEY'') # DATABASE_SCHEMA, rows = []\<rparr>
       \<and> ''vector'' \<in> set (extensions (db (snd (create_table w2 (snd (create_table w1 s))))))
       \<and> db (snd (create_table w2 (snd (create_table w1 s)))) = db (snd (create_table w1 s))"
proof -
  from create_table_accepted[OF assms(1), of s] assms(3) obtain s1 where
    1: "create_table w1 s = (Inr (), s1)"
    and s1: "s1 = s\<lparr>db := recreated (db s),
               trace := trace s @ [LogInfo table_creation_query, Getconn c1, Commit c1, Putconn c1]\<rparr>"
    by auto
  from create_table_accepted[OF assms(2), of s1] assms(4) obtain s2 where
    2: "create_table w2 s1 = (Inr (), s2)"
    and s2: "s2 = s1\<lparr>db := recreated (db s1),
               trace := trace s1 @ [LogInfo table_creation_query, Getconn c2, Commit c2, Putconn c2]\<rparr>"
    by auto
  from s1 s2 have "db s2 = db s1" by (simp add: recreated_idem)
  moreover from s2 have "tables (db s2) TABLE_NAME =
           Some \<lparr>columns = (''id'', ''SERIAL PRIMARY KEY'') # DATABASE_SCHEMA, rows = []\<rparr>"
    and "''vector'' \<in> set (extensions (db s2))"
    by (simp_all add: recreated_def)
  moreover from s1 have "new_events s s1
      = [LogInfo table_creation_query, Getconn c1, Commit c1, Putconn c1]"
    by (simp add: new_events_def)
  moreover from s2 have "new_events s1 s2
      = [LogInfo table_creation_query, Getconn c2, Commit c2, Putconn c2]"
    by (simp add: new_events_def)
  ultimately show ?thesis using 1 2 by simp
qed

text \<open>
  An instance: the table holds a row before the two calls and none after them.
\<close>

theorem create_table_twice_witness:
  "fst (create_table calm_world (snd (create_table calm_world stocked_state))) = Inr ()
   \<and> filter is_store_call
       (trace (snd (create_table calm_world (snd (create_table calm_world stocked_state)))))
     = [Getconn 0, Commit 0, Putconn 0, Getconn 0, Commit 0, Putconn 0]
   \<and> tables (db (snd (create_table calm_world (snd (create_table calm_world stocked_state)))))
        ''my_table'' =
       Some \<lparr>columns = [(''id'', ''SERIAL PRIMARY KEY''), (''text_chunk'', ''varchar''),
                        (''embedding'', ''vector(768)'')],
             rows = []\<rparr>"
proof -
  have a: "accepts_table_creation calm_world"
    by (simp add: accepts_table_creation_def calm_world_def)
  have c: "getconn_result calm_world = Inr 0" by (simp add: calm_world_def)
  note twice = create_table_twice[OF a a c c, of stocked_state]
  let ?s1 = "snd (create_table calm_world stocked_state)"
  let ?s2 = "snd (create_table calm_world ?s1)"
  have p: "prefix (trace stocked_state) (trace ?s1)" "prefix (trace ?s1) (trace ?s2)"
    using create_table_pool[of calm_world stocked_state] create_table_pool[of calm_world ?s1]
    by simp_all
  have "trace ?s2 = trace stocked_state @ new_events stocked_state ?s1 @ new_events ?s1 ?s2"
    using p by (auto simp: new_events_def prefix_def)
  with twice[THEN conjunct2, THEN conjunct2, THEN conjunct1]
    twice[THEN conjunct2, THEN conjunct2, THEN conjunct2, THEN conjunct1]
  have t: "filter is_store_call (trace ?s2)
     = [Getconn 0, Commit 0, Putconn 0, Getconn 0, Commit 0, Putconn 0]"
    by (simp add: stocked_state_def)
  from twice[THEN conjunct2, THEN conjunct1]
    twice[THEN conjunct2, THEN conjunct2, THEN conjunct2, THEN conjunct2, THEN conjunct1] t
  show ?thesis by (simp add: TABLE_NAME_def DATABASE_SCHEMA_def)
qed

subsection \<open>C10: a failing embedding leaves the store untouched\<close>

text \<open>
  C10. \<^verbatim>\<open>ingest\<close> computes all pairs before its \<^verbatim>\<open>try\<close> statement. When the splitter returns
  \<open>chunks\<close> and the embedding model raises \<open>e\<close> at chunk \<open>k\<close>, the requests for the chunks
  before it having returned an embedding, \<^verbatim>\<open>ingest\<close> raises \<open>e\<close> and the state it leaves is
  the state it started in with a longer trace: the log line with the number of chunks and
  the requests for the chunks up to \<open>k\<close>. No connection is borrowed, no transaction is
  ended, the database is unchanged. In every run of \<^verbatim>\<open>ingest\<close>, failing or not, every
  request to the embedding model is made in the embedding step, before the pool is called.
  And however the embedding step raises (the splitter, a request, a response with no
  embedding), \<^verbatim>\<open>ingest\<close> raises the same exception in the state the step has left, which
  has the database and the borrowed connections of the initial state and no call to the
  store in its new events.
\<close>

theorem embedding_failure_leaves_store_untouched:
  assumes "split_input_to_chunks w doc = Inr chunks"
      and "k < length chunks"
      and "get_embeddings w k (chunks ! k) = Inl e"
      and "\<forall>j<k. \<exists>vs. get_embeddings w j (chunks ! j) = Inr vs \<and> vs \<noteq> []"
  shows "ingest w doc s =
           (Inl e,
            s\<lparr>trace := trace s
                 @ LogInfo (''Number of chunks generated: '' @ str_of_nat (length chunks))
                 # map EmbedCall (take (Suc k) chunks)\<rparr>)
         \<and> db (snd (ingest w doc s)) = db s
         \<and> borrowed (snd (ingest w doc s)) = borrowed s
         \<and> filter is_store_call (new_events s (snd (ingest w doc s))) = []
         \<and> filter is_embed_call
             (new_events (snd (get_text_embedding_pairs w doc s)) (snd (ingest w doc s))) = []
         \<and> (get_text_embedding_pairs w doc s = (Inl e0, s0) \<longrightarrow>
              ingest w doc s = (Inl e0, s0) \<and> db s0 = db s \<and> borrowed s0 = borrowed s
            \<and> filter is_store_call (new_events s s0) = [])"
proof -
  define s1 where "s1 = logger_info (''Number of chunks generated: '' @ str_of_nat (length chunks)) s"
  have "embed_chunks w 0 chunks [] s1 =
          (Inl e, s1\<lparr>trace := trace s1 @ map EmbedCall (take (Suc k) chunks)\<rparr>)"
    by (rule embed_chunks_first_failure) (use assms in simp_all)
  with assms(1) have g: "get_text_embedding_pairs w doc s =
          (Inl e, s1\<lparr>trace := trace s1 @ map EmbedCall (take (Suc k) chunks)\<rparr>)"
    by (simp add: get_text_embedding_pairs_def s1_def)
  have i: "ingest w doc s =
           (Inl e,
            s\<lparr>trace := trace s
                 @ LogInfo (''Number of chunks generated: '' @ str_of_nat (length chunks))
                 # map EmbedCall (take (Suc k) chunks)\<rparr>)"
    using ingest_raised_early[OF g] by (simp add: s1_def logger_info_def emit_def)
  have "filter is_store_call (map EmbedCall xs) = []" for xs
    by (induction xs) simp_all
  with i have "filter is_store_call (new_events s (snd (ingest w doc s))) = []"
    by (simp add: new_events_def)
  with i ingest_embeds_first[of w doc s] ingest_embedding_raised[of w doc s e0 s0]
  show ?thesis by simp
qed

theorem embedding_failure_leaves_store_untouched_witness:
  "ingest flaky_embedding_world ''doc'' fresh_state =
     (Inl failing_embedding,
      fresh_state\<lparr>trace := [LogInfo ''Number of chunks generated: 3'',
                            EmbedCall ''one'', EmbedCall ''two'']\<rparr>)"
proof -
  have 1: "split_input_to_chunks flaky_embedding_world ''doc'' = Inr [''one'', ''two'', ''three'']"
    by (simp add: split_input_to_chunks_def flaky_embedding_world_def calm_world_def)
  have 2: "Suc 0 < length [''one'', ''two'', ''three'']" by simp
  have 3: "get_embeddings flaky_embedding_world (Suc 0) ([''one'', ''two'', ''three''] ! Suc 0)
             = Inl failing_embedding"
    by (simp add: flaky_embedding_world_def calm_world_def)
  have 4: "\<forall>j<Suc 0. \<exists>vs. get_embeddings flaky_embedding_world j ([''one'', ''two'', ''three''] ! j)
             = Inr vs \<and> vs \<noteq> []"
    by (simp add: flaky_embedding_world_def calm_world_def)
  have 5: "str_of_nat (length [''one'', ''two'', ''three'']) = ''3''"
    by (simp add: str_of_nat.simps)
  from embedding_failure_leaves_store_untouched[OF 1 2 3 4, of fresh_state] 5
  show ?thesis by (simp add: fresh_state_def)
qed

end
